theory Spec2Isabelle
  imports Main "HOL-Library.Word" "HOL-Library.AList"
begin

section \<open>JavaScript strings\<close>

text \<open>
  A JavaScript string is a sequence of UTF-16 code units; \<open>length\<close>, \<open>slice\<close>,
  \<open>includes\<close> and the template literal of \<open>deriveTitle\<close> all count code units. The
  horizontal ellipsis appended by \<open>deriveTitle\<close> is the single code unit U+2026.
\<close>

type_synonym jschar = "16 word"
type_synonym jsstring = "jschar list"

text \<open>Basic Latin literals of the source, written as Isabelle strings.\<close>

definition js :: "string \<Rightarrow> jsstring" where
  "js s = map of_char s"

text \<open>
  The code units matched by \<open>\s\<close> in a regular expression and stripped by
  \<open>String.prototype.trim\<close>: ECMAScript WhiteSpace and LineTerminator.
\<close>

definition isWhiteSpace :: "jschar \<Rightarrow> bool" where
  "isWhiteSpace c \<longleftrightarrow>
     c = 0x0009 \<or> c = 0x000A \<or> c = 0x000B \<or> c = 0x000C \<or> c = 0x000D \<or>
     c = 0x0020 \<or> c = 0x00A0 \<or> c = 0x1680 \<or> (0x2000 \<le> c \<and> c \<le> 0x200A) \<or>
     c = 0x2028 \<or> c = 0x2029 \<or> c = 0x202F \<or> c = 0x205F \<or> c = 0x3000 \<or> c = 0xFEFF"

text \<open>\<open>s.trim()\<close>\<close>

definition trim :: "jsstring \<Rightarrow> jsstring" where
  "trim s = rev (dropWhile isWhiteSpace (rev (dropWhile isWhiteSpace s)))"

text \<open>\<open>s.replace(/\s+/g, " ")\<close>: every maximal run of white space becomes one U+0020.\<close>

function collapseWhitespace :: "jsstring \<Rightarrow> jsstring" where
  "collapseWhitespace [] = []"
| "collapseWhitespace (c # cs) =
     (if isWhiteSpace c then 0x0020 # collapseWhitespace (dropWhile isWhiteSpace cs)
      else c # collapseWhitespace cs)"
  by pat_completeness auto
termination
  by (relation "measure length") (auto simp: length_dropWhile_le less_Suc_eq_le)

text \<open>\<open>hay.includes(needle)\<close>: \<open>needle\<close> occurs in \<open>hay\<close> at some position.\<close>

fun js_includes :: "jsstring \<Rightarrow> jsstring \<Rightarrow> bool" where
  "js_includes [] needle = (needle = [])"
| "js_includes (c # cs) needle =
     (take (length needle) (c # cs) = needle \<or> js_includes cs needle)"

text \<open>\<open>xs.slice(-n)\<close> for a positive \<open>n\<close>: the last \<open>n\<close> elements, all of them when there are fewer.\<close>

definition slice_last :: "nat \<Rightarrow> 'a list \<Rightarrow> 'a list" where
  "slice_last n xs = drop (length xs - n) xs"

text \<open>\<open>String(i)\<close> for an array index: its decimal digits.\<close>

function decimal :: "nat \<Rightarrow> jsstring" where
  "decimal n = (if n < 10 then [of_nat (48 + n)] else decimal (n div 10) @ [of_nat (48 + n mod 10)])"
  by pat_completeness auto
termination
  by (relation "measure id") auto

declare decimal.simps [simp del]


section \<open>The data model of \<open>types.ts\<close>\<close>

datatype ChatRole = User | Assistant

record ChatMessage =
  m_id :: jsstring
  m_role :: ChatRole
  m_content :: jsstring
  m_createdAt :: jsstring

record ChatSession =
  s_id :: jsstring
  s_title :: jsstring
  s_messages :: "ChatMessage list"
  s_createdAt :: jsstring
  s_updatedAt :: jsstring

definition STORAGE_KEY :: jsstring where
  "STORAGE_KEY = js ''chatgpt-local-sessions-v1''"

definition ACTIVE_SESSION_KEY :: jsstring where
  "ACTIVE_SESSION_KEY = js ''chatgpt-local-active-session''"

definition MAX_SESSION_HISTORY :: nat where
  "MAX_SESSION_HISTORY = 75"


section \<open>Thrown values\<close>

text \<open>
  What the modelled code can catch: the \<open>TypeError\<close> of a property read on \<open>null\<close> or
  \<open>undefined\<close> or of a call of a non-function, the \<open>SyntaxError\<close> of \<open>JSON.parse\<close>,
  a \<open>DOMException\<close> with its \<open>name\<close>, and any other thrown value.
\<close>

datatype js_error = TypeError | SyntaxError | DOMException jsstring | OtherThrown

definition isQuotaError :: "js_error \<Rightarrow> bool" where
  "isQuotaError error =
     (case error of
        DOMException name \<Rightarrow>
          name = js ''QuotaExceededError'' \<or> name = js ''NS_ERROR_DOM_QUOTA_REACHED''
      | _ \<Rightarrow> False)"


section \<open>Titles\<close>

text \<open>
  Lines 66 to 70 of \<open>deriveTitle\<close>, on the content of the first user message: trim, collapse
  the white space, and cut to 45 code units followed by the ellipsis U+2026 when longer.
\<close>

definition titleOfContent :: "jsstring \<Rightarrow> jsstring" where
  "titleOfContent content =
     (let trimmed = collapseWhitespace (trim content)
      in if length trimmed \<le> 45 then trimmed else take 45 trimmed @ [0x2026])"

definition deriveTitle :: "ChatMessage list \<Rightarrow> jsstring" where
  "deriveTitle messages =
     (case find (\<lambda>message. m_role message = User) messages of
        None \<Rightarrow> js ''New chat''
      | Some firstUser \<Rightarrow> titleOfContent (m_content firstUser))"

text \<open>\<open>uuid()\<close> and \<open>new Date().toISOString()\<close> are inputs of the model.\<close>

definition createEmptySession :: "jsstring \<Rightarrow> jsstring \<Rightarrow> ChatSession" where
  "createEmptySession uuid timestamp =
     \<lparr>s_id = uuid, s_title = js ''New chat'', s_messages = [],
      s_createdAt = timestamp, s_updatedAt = timestamp\<rparr>"


section \<open>Capacity\<close>

definition ensureCapacity :: "ChatSession list \<Rightarrow> ChatSession list" where
  "ensureCapacity sessions =
     (if length sessions \<le> MAX_SESSION_HISTORY then sessions
      else map (\<lambda>session. session\<lparr>s_messages := slice_last 200 (s_messages session)\<rparr>)
             (slice_last MAX_SESSION_HISTORY sessions))"


section \<open>Local storage\<close>

text \<open>
  \<open>window.localStorage\<close> maps keys to strings; \<open>typeof window === "undefined"\<close> is the
  case \<open>None\<close> of a \<open>storage option\<close>.
\<close>

type_synonym storage = "jsstring \<rightharpoonup> jsstring"

text \<open>
  The loop of \<open>persistToStorage\<close>. \<open>JSON_stringify\<close> is the serialisation of the payload.
  \<open>setItem\<close> gives the outcome of each call of \<open>localStorage.setItem\<close>, numbered from the
  first call of this save: \<open>None\<close> when the write succeeds, \<open>Some error\<close> when it throws.
  The result is the storage afterwards and the number of calls of \<open>setItem\<close> made.
\<close>

fun persist_loop ::
  "(ChatSession list \<Rightarrow> jsstring) \<Rightarrow> (nat \<Rightarrow> js_error option) \<Rightarrow> nat \<Rightarrow>
   ChatSession list \<Rightarrow> storage \<Rightarrow> storage \<times> nat" where
  "persist_loop JSON_stringify setItem n [] localStorage = (localStorage, n)"
| "persist_loop JSON_stringify setItem n (p # ps) localStorage =
     (case setItem n of
        None \<Rightarrow> (localStorage(STORAGE_KEY \<mapsto> JSON_stringify (p # ps)), Suc n)
      | Some error \<Rightarrow>
          if \<not> isQuotaError error then (localStorage, Suc n)
          else persist_loop JSON_stringify setItem (Suc n) ps localStorage)"

definition persistToStorage ::
  "(ChatSession list \<Rightarrow> jsstring) \<Rightarrow> (nat \<Rightarrow> js_error option) \<Rightarrow>
   ChatSession list \<Rightarrow> storage option \<Rightarrow> storage option \<times> nat" where
  "persistToStorage JSON_stringify setItem sessions window =
     (case window of
        None \<Rightarrow> (None, 0)
      | Some localStorage \<Rightarrow>
          (let payload = ensureCapacity sessions;
               (localStorage', n) = persist_loop JSON_stringify setItem 0 payload localStorage
           in (Some localStorage', n)))"

text \<open>
  \<open>writeActiveSession\<close>: a falsy id (\<open>null\<close> or the empty string) removes the slot; a
  \<open>setItem\<close> that throws is caught and leaves the storage as it was.
\<close>

definition writeActiveSession :: "bool \<Rightarrow> jsstring option \<Rightarrow> storage option \<Rightarrow> storage option" where
  "writeActiveSession setItem_ok sessionId window =
     (case window of
        None \<Rightarrow> None
      | Some localStorage \<Rightarrow>
          (if sessionId = None \<or> sessionId = Some [] then
             Some (localStorage(ACTIVE_SESSION_KEY := None))
           else if setItem_ok then Some (localStorage(ACTIVE_SESSION_KEY := sessionId))
           else Some localStorage))"


section \<open>The session state controller\<close>

text \<open>The React state of \<open>ChatApp\<close> that the operations below read and write, and the browser.\<close>

record app =
  st_sessions :: "ChatSession list"
  st_activeSessionId :: "jsstring option"
  st_window :: "storage option"

text \<open>
  \<open>filteredSessions\<close>. \<open>toLowerCase\<close> is \<open>String.prototype.toLowerCase\<close>, the Unicode
  lower-casing of the platform.
\<close>

definition filteredSessions ::
  "(jsstring \<Rightarrow> jsstring) \<Rightarrow> ChatSession list \<Rightarrow> jsstring \<Rightarrow> ChatSession list" where
  "filteredSessions toLowerCase sessions searchTerm =
     (if trim searchTerm = [] then sessions
      else
        (let needle = toLowerCase searchTerm
         in filter
              (\<lambda>session.
                 js_includes (toLowerCase (s_title session)) needle \<or>
                 list_ex (\<lambda>message. js_includes (toLowerCase (m_content message)) needle)
                   (s_messages session))
              sessions))"

text \<open>\<open>handleNewChat\<close>, on the state above (the input box and the typing flag are view state).\<close>

definition handleNewChat :: "jsstring \<Rightarrow> jsstring \<Rightarrow> bool \<Rightarrow> app \<Rightarrow> app" where
  "handleNewChat uuid timestamp setItem_ok st =
     (let newSession = createEmptySession uuid timestamp
      in st\<lparr>st_sessions := newSession # st_sessions st,
            st_activeSessionId := Some (s_id newSession),
            st_window := writeActiveSession setItem_ok (Some (s_id newSession)) (st_window st)\<rparr>)"

definition handleDeleteSession :: "jsstring \<Rightarrow> jsstring \<Rightarrow> bool \<Rightarrow> jsstring \<Rightarrow> app \<Rightarrow> app" where
  "handleDeleteSession uuid timestamp setItem_ok sessionId st =
     (let remaining = filter (\<lambda>session. s_id session \<noteq> sessionId) (st_sessions st)
      in case remaining of
           [] \<Rightarrow>
             (let fallback = createEmptySession uuid timestamp
              in st\<lparr>st_sessions := [fallback],
                    st_activeSessionId := Some (s_id fallback),
                    st_window := writeActiveSession setItem_ok (Some (s_id fallback)) (st_window st)\<rparr>)
         | first # _ \<Rightarrow>
             if st_activeSessionId st = Some sessionId then
               (let fallbackId = s_id first
                in st\<lparr>st_sessions := remaining,
                      st_activeSessionId := Some fallbackId,
                      st_window := writeActiveSession setItem_ok (Some fallbackId) (st_window st)\<rparr>)
             else st\<lparr>st_sessions := remaining\<rparr>)"

definition updateSessionMessages ::
  "jsstring \<Rightarrow> jsstring \<Rightarrow> (ChatMessage list \<Rightarrow> ChatMessage list) \<Rightarrow>
   ChatSession list \<Rightarrow> ChatSession list" where
  "updateSessionMessages timestamp sessionId updater prev =
     map (\<lambda>session.
            if s_id session \<noteq> sessionId then session
            else
              (let nextMessages = updater (s_messages session)
               in session\<lparr>s_messages := nextMessages,
                          s_title := deriveTitle nextMessages,
                          s_updatedAt := timestamp\<rparr>))
       prev"

text \<open>The updater of \<open>handleSend\<close>: \<open>(messages) => [...messages, message]\<close>.\<close>

definition appendMessage :: "ChatMessage \<Rightarrow> ChatMessage list \<Rightarrow> ChatMessage list" where
  "appendMessage message messages = messages @ [message]"


section \<open>Values read back from storage\<close>

text \<open>
  \<open>JSON.parse\<close> returns any JSON value, whatever the cast \<open>as ChatSession[]\<close> says, and
  \<open>sanitizeSessions\<close> tests the shape of what it is given at run time. A number is kept as
  its IEEE 754 binary64 bit pattern. An object is the list of its own properties in
  enumeration order.
\<close>

datatype jsvalue =
    JNull
  | JBool bool
  | JNum "64 word"
  | JStr jsstring
  | JArr "jsvalue list"
  | JObj "(jsstring \<times> jsvalue) list"

text \<open>\<open>ToBoolean\<close>: \<open>null\<close>, \<open>false\<close>, \<open>+0\<close>, \<open>-0\<close>, \<open>NaN\<close> and \<open>""\<close> are falsy.\<close>

fun truthy :: "jsvalue \<Rightarrow> bool" where
  "truthy JNull = False"
| "truthy (JBool b) = b"
| "truthy (JNum d) =
     (let magnitude = and d 0x7FFFFFFFFFFFFFFF
      in magnitude \<noteq> 0 \<and> magnitude \<le> 0x7FF0000000000000)"
| "truthy (JStr s) = (s \<noteq> [])"
| "truthy (JArr xs) = True"
| "truthy (JObj kvs) = True"

text \<open>
  \<open>v.k\<close> for a \<open>v\<close> other than \<open>null\<close> and for the property names this code reads
  (\<open>id\<close>, \<open>title\<close>, \<open>messages\<close>, \<open>createdAt\<close>, \<open>updatedAt\<close>, \<open>role\<close>, \<open>content\<close>),
  none of which a prototype defines: \<open>None\<close> is \<open>undefined\<close>.
\<close>

fun get_prop :: "jsvalue \<Rightarrow> jsstring \<Rightarrow> jsvalue option" where
  "get_prop (JObj kvs) k = map_of kvs k"
| "get_prop v k = None"

definition truthy_prop :: "jsvalue option \<Rightarrow> bool" where
  "truthy_prop v = (case v of None \<Rightarrow> False | Some x \<Rightarrow> truthy x)"

text \<open>\<open>a || b\<close>, and \<open>a || b\<close> with a \<open>b\<close> that is never \<open>undefined\<close>.\<close>

definition js_or :: "jsvalue option \<Rightarrow> jsvalue option \<Rightarrow> jsvalue option" where
  "js_or a b = (if truthy_prop a then a else b)"

definition or_else :: "jsvalue option \<Rightarrow> jsvalue \<Rightarrow> jsvalue" where
  "or_else a b = (case a of None \<Rightarrow> b | Some x \<Rightarrow> if truthy x then x else b)"

text \<open>\<open>a || b\<close> with a \<open>b\<close> whose evaluation may throw: \<open>b\<close> is evaluated only when \<open>a\<close> is falsy.\<close>

definition or_else_try :: "jsvalue option \<Rightarrow> js_error + jsvalue \<Rightarrow> js_error + jsvalue" where
  "or_else_try a b = (case a of None \<Rightarrow> b | Some x \<Rightarrow> if truthy x then Inr x else b)"

text \<open>
  The own enumerable properties that the spread \<open>{...v}\<close> copies: those of an object, the
  indices of an array or of a string, none of any other value.
\<close>

fun ownProperties :: "jsvalue \<Rightarrow> (jsstring \<times> jsvalue) list" where
  "ownProperties (JObj kvs) = kvs"
| "ownProperties (JArr xs) = zip (map decimal [0..<length xs]) xs"
| "ownProperties (JStr s) = zip (map decimal [0..<length s]) (map (\<lambda>c. JStr [c]) s)"
| "ownProperties v = []"

text \<open>
  \<open>messages.find((message) => message.role === "user")\<close> on an array of arbitrary values:
  reading \<open>role\<close> of \<open>null\<close> throws.
\<close>

fun find_user :: "jsvalue list \<Rightarrow> js_error + jsvalue option" where
  "find_user [] = Inr None"
| "find_user (message # messages) =
     (if message = JNull then Inl TypeError
      else if get_prop message (js ''role'') = Some (JStr (js ''user'')) then Inr (Some message)
      else find_user messages)"

text \<open>
  \<open>deriveTitle\<close> as \<open>sanitizeSessions\<close> calls it, on the array it read from storage:
  \<open>firstUser.content.trim()\<close> throws unless the content is a string.
\<close>

definition deriveTitle_dyn :: "jsvalue list \<Rightarrow> js_error + jsstring" where
  "deriveTitle_dyn messages =
     (case find_user messages of
        Inl error \<Rightarrow> Inl error
      | Inr None \<Rightarrow> Inr (js ''New chat'')
      | Inr (Some firstUser) \<Rightarrow>
          (case get_prop firstUser (js ''content'') of
             Some (JStr content) \<Rightarrow> Inr (titleOfContent content)
           | _ \<Rightarrow> Inl TypeError))"

text \<open>The two filter predicates of \<open>sanitizeSessions\<close>.\<close>

definition session_ok :: "jsvalue \<Rightarrow> bool" where
  "session_ok session \<longleftrightarrow>
     truthy session \<and> truthy_prop (get_prop session (js ''id'')) \<and>
     (case get_prop session (js ''messages'') of Some (JArr messages) \<Rightarrow> True | _ \<Rightarrow> False)"

definition message_ok :: "jsvalue \<Rightarrow> bool" where
  "message_ok message \<longleftrightarrow>
     truthy message \<and> truthy_prop (get_prop message (js ''id'')) \<and>
     truthy_prop (get_prop message (js ''role'')) \<and> get_prop message (js ''content'') \<noteq> None"

text \<open>The two map callbacks. \<open>now\<close> is \<open>new Date().toISOString()\<close>.\<close>

definition sanitizeMessage :: "jsstring \<Rightarrow> jsvalue \<Rightarrow> jsvalue" where
  "sanitizeMessage now message =
     JObj (AList.update (js ''createdAt'')
             (or_else (get_prop message (js ''createdAt'')) (JStr now))
             (ownProperties message))"

definition sanitizeSession :: "jsstring \<Rightarrow> jsvalue \<Rightarrow> js_error + jsvalue" where
  "sanitizeSession now session =
     (case get_prop session (js ''messages'') of
        Some (JArr messages) \<Rightarrow>
          (case or_else_try (get_prop session (js ''title''))
                  (map_sum id JStr (deriveTitle_dyn messages)) of
             Inl error \<Rightarrow> Inl error
           | Inr title \<Rightarrow>
               Inr (JObj
                 (AList.update (js ''messages'')
                    (JArr (map (sanitizeMessage now) (filter message_ok messages)))
                 (AList.update (js ''updatedAt'')
                    (or_else (js_or (get_prop session (js ''updatedAt''))
                                (get_prop session (js ''createdAt''))) (JStr now))
                 (AList.update (js ''createdAt'')
                    (or_else (get_prop session (js ''createdAt'')) (JStr now))
                 (AList.update (js ''title'') title
                    (ownProperties session)))))))
      | _ \<Rightarrow> Inl TypeError)"

text \<open>\<open>xs.map(f)\<close> with a callback that may throw: the first throw ends the loop.\<close>

fun map_throwing :: "('a \<Rightarrow> js_error + 'b) \<Rightarrow> 'a list \<Rightarrow> js_error + 'b list" where
  "map_throwing f [] = Inr []"
| "map_throwing f (x # xs) =
     (case f x of
        Inl error \<Rightarrow> Inl error
      | Inr y \<Rightarrow> (case map_throwing f xs of Inl error \<Rightarrow> Inl error | Inr ys \<Rightarrow> Inr (y # ys)))"

text \<open>\<open>sessions.filter\<close> is a function only when \<open>sessions\<close> is an array.\<close>

definition sanitizeSessions :: "jsstring \<Rightarrow> jsvalue \<Rightarrow> js_error + jsvalue list" where
  "sanitizeSessions now sessions =
     (case sessions of
        JArr entries \<Rightarrow> map_throwing (sanitizeSession now) (filter session_ok entries)
      | _ \<Rightarrow> Inl TypeError)"

text \<open>
  \<open>readFromStorage\<close>: the body of its \<open>try\<close>, then the whole function. \<open>JSON_parse\<close> is
  \<open>JSON.parse\<close>, \<open>None\<close> where it throws its \<open>SyntaxError\<close>.
\<close>

definition readFromStorage_try ::
  "(jsstring \<Rightarrow> jsvalue option) \<Rightarrow> jsstring \<Rightarrow> storage \<Rightarrow> js_error + jsvalue list" where
  "readFromStorage_try JSON_parse now localStorage =
     (case localStorage STORAGE_KEY of
        None \<Rightarrow> Inr []
      | Some raw \<Rightarrow>
          if raw = [] then Inr []
          else (case JSON_parse raw of
                  None \<Rightarrow> Inl SyntaxError
                | Some parsed \<Rightarrow> sanitizeSessions now parsed))"

definition readFromStorage ::
  "(jsstring \<Rightarrow> jsvalue option) \<Rightarrow> jsstring \<Rightarrow> storage option \<Rightarrow> jsvalue list" where
  "readFromStorage JSON_parse now window =
     (case window of
        None \<Rightarrow> []
      | Some localStorage \<Rightarrow>
          (case readFromStorage_try JSON_parse now localStorage of
             Inl error \<Rightarrow> []
           | Inr sessions \<Rightarrow> sessions))"


section \<open>The typed data as stored values\<close>

text \<open>
  The values that \<open>JSON.parse(JSON.stringify(sessions))\<close> gives for sessions of the types of
  \<open>types.ts\<close>, with the properties in the order in which the code writes them.
\<close>

definition role_json :: "ChatRole \<Rightarrow> jsvalue" where
  "role_json r = (case r of User \<Rightarrow> JStr (js ''user'') | Assistant \<Rightarrow> JStr (js ''assistant''))"

definition message_json :: "ChatMessage \<Rightarrow> jsvalue" where
  "message_json m =
     JObj [(js ''id'', JStr (m_id m)), (js ''role'', role_json (m_role m)),
           (js ''content'', JStr (m_content m)), (js ''createdAt'', JStr (m_createdAt m))]"

definition session_json :: "ChatSession \<Rightarrow> jsvalue" where
  "session_json s =
     JObj [(js ''id'', JStr (s_id s)), (js ''title'', JStr (s_title s)),
           (js ''messages'', JArr (map message_json (s_messages s))),
           (js ''createdAt'', JStr (s_createdAt s)), (js ''updatedAt'', JStr (s_updatedAt s))]"


section \<open>Lower-casing in the examples\<close>

text \<open>
  \<open>String.prototype.toLowerCase\<close> on a string of Basic Latin code units. The theorems about
  \<open>filteredSessions\<close> hold for any lower-casing function; this one instantiates them.
\<close>

definition toLowerCase_ascii :: "jsstring \<Rightarrow> jsstring" where
  "toLowerCase_ascii s = map (\<lambda>c. if 0x41 \<le> c \<and> c \<le> 0x5A then c + 0x20 else c) s"


section \<open>Strings\<close>

lemma of_char_less_256: "(of_char c :: nat) < 256"
proof -
  have "(of_char c :: nat) mod 256 < 256" by simp
  then show ?thesis by (simp only: of_char_mod_256)
qed

lemma unat_of_char: "unat (of_char c :: 16 word) = of_char c"
proof -
  have "(of_char c :: 16 word) = of_nat (of_char c)" by (simp add: of_nat_of_char)
  moreover have "(of_char c :: nat) < 2 ^ 16"
    by (rule less_trans [OF of_char_less_256]) simp
  ultimately show ?thesis by (simp add: unat_of_nat)
qed

lemma of_char_word_eq_iff: "(of_char c :: 16 word) = of_char d \<longleftrightarrow> c = d"
  by (metis unat_of_char of_char_eq_iff)

lemma js_eq_iff: "js a = js b \<longleftrightarrow> a = b"
  unfolding js_def by (simp add: inj_map_eq_map inj_on_def of_char_word_eq_iff)

lemma js_Nil_iff: "js a = [] \<longleftrightarrow> a = []" "[] = js a \<longleftrightarrow> a = []"
  by (auto simp: js_def)

lemmas js_simps = js_eq_iff js_Nil_iff

lemma trim_empty_iff: "trim s = [] \<longleftrightarrow> (\<forall>c\<in>set s. isWhiteSpace c)"
proof
  assume "trim s = []"
  then have a: "\<forall>c\<in>set (dropWhile isWhiteSpace s). isWhiteSpace c"
    by (simp add: trim_def dropWhile_eq_Nil_conv)
  have "dropWhile isWhiteSpace s = []"
  proof (cases "dropWhile isWhiteSpace s")
    case Nil
    then show ?thesis .
  next
    case (Cons x xs)
    then have "\<not> isWhiteSpace x" by (metis hd_dropWhile list.sel(1) list.distinct(1))
    moreover have "isWhiteSpace x" using a Cons by simp
    ultimately show ?thesis by simp
  qed
  then show "\<forall>c\<in>set s. isWhiteSpace c"
    by (simp add: dropWhile_eq_Nil_conv)
next
  assume "\<forall>c\<in>set s. isWhiteSpace c"
  then have "dropWhile isWhiteSpace s = []" by (simp add: dropWhile_eq_Nil_conv)
  then show "trim s = []" by (simp only: trim_def rev.simps dropWhile.simps)
qed

lemma js_includes_iff:
  "js_includes hay needle \<longleftrightarrow> (\<exists>p q. hay = p @ needle @ q)"
proof (induction hay)
  case Nil
  then show ?case by simp
next
  case (Cons c cs)
  have pre: "take (length needle) (c # cs) = needle \<longleftrightarrow> (\<exists>q. c # cs = needle @ q)"
    by (metis append_eq_conv_conj append_take_drop_id)
  have "(\<exists>p q. c # cs = p @ needle @ q) \<longleftrightarrow>
        (\<exists>q. c # cs = needle @ q) \<or> (\<exists>p q. cs = p @ needle @ q)"
  proof
    assume "\<exists>p q. c # cs = p @ needle @ q"
    then obtain p q where pq: "c # cs = p @ needle @ q" by blast
    show "(\<exists>q. c # cs = needle @ q) \<or> (\<exists>p q. cs = p @ needle @ q)"
    proof (cases p)
      case Nil
      with pq show ?thesis by auto
    next
      case (Cons a p')
      with pq have "cs = p' @ needle @ q" by simp
      then show ?thesis by blast
    qed
  next
    assume "(\<exists>q. c # cs = needle @ q) \<or> (\<exists>p q. cs = p @ needle @ q)"
    then show "\<exists>p q. c # cs = p @ needle @ q"
    proof
      assume "\<exists>q. c # cs = needle @ q"
      then obtain q where "c # cs = [] @ needle @ q" by auto
      then show ?thesis by blast
    next
      assume "\<exists>p q. cs = p @ needle @ q"
      then obtain p q where "c # cs = (c # p) @ needle @ q" by auto
      then show ?thesis by blast
    qed
  qed
  with pre Cons show ?case by simp
qed

lemma slice_last_length: "length (slice_last n xs) = min n (length xs)"
  by (simp add: slice_last_def)

lemma slice_last_all: "length xs \<le> n \<Longrightarrow> slice_last n xs = xs"
  by (simp add: slice_last_def)

lemma titleOfContent_length: "length (titleOfContent c) \<le> 46"
  by (simp add: titleOfContent_def Let_def)

lemma collapseWhitespace_empty_iff: "collapseWhitespace s = [] \<longleftrightarrow> s = []"
  by (cases s) simp_all

lemma titleOfContent_empty_iff: "titleOfContent c = [] \<longleftrightarrow> (\<forall>ch\<in>set c. isWhiteSpace ch)"
proof -
  have "titleOfContent c = [] \<longleftrightarrow> collapseWhitespace (trim c) = []"
    by (auto simp: titleOfContent_def Let_def)
  then show ?thesis
    by (simp add: collapseWhitespace_empty_iff trim_empty_iff)
qed

text \<open>
  What trimming and collapsing do: the collapsed string has the text of the original, its
  only white space is U+0020, and no two of them are adjacent; the trimmed string is the
  original without the white space at its two ends.
\<close>

lemma space_is_white: "isWhiteSpace 0x20"
  by (simp add: isWhiteSpace_def)

lemma collapseWhitespace_spaces:
  "c \<in> set (collapseWhitespace s) \<Longrightarrow> isWhiteSpace c \<Longrightarrow> c = 0x20"
  by (induction s rule: collapseWhitespace.induct) (auto split: if_splits)

lemma collapseWhitespace_keeps_text:
  "filter (\<lambda>c. \<not> isWhiteSpace c) (collapseWhitespace s) = filter (\<lambda>c. \<not> isWhiteSpace c) s"
proof (induction s rule: collapseWhitespace.induct)
  case 1
  then show ?case by simp
next
  case (2 c cs)
  have d: "filter (\<lambda>c. \<not> isWhiteSpace c) (dropWhile isWhiteSpace cs) =
      filter (\<lambda>c. \<not> isWhiteSpace c) cs"
    by (induction cs) simp_all
  show ?case
  proof (cases "isWhiteSpace c")
    case True
    with 2 d show ?thesis by (simp add: space_is_white)
  next
    case False
    with 2 show ?thesis by simp
  qed
qed

lemma collapseWhitespace_no_runs:
  "collapseWhitespace s = p @ a # b # q \<Longrightarrow> \<not> (isWhiteSpace a \<and> isWhiteSpace b)"
proof (induction s arbitrary: p a b q rule: collapseWhitespace.induct)
  case 1
  then show ?case by simp
next
  case (2 c cs)
  show ?case
  proof (cases "isWhiteSpace c")
    case True
    note w = this
    show ?thesis
    proof (cases p)
      case Nil
      with 2(3) w have b: "collapseWhitespace (dropWhile isWhiteSpace cs) = b # q" by simp
      then have "dropWhile isWhiteSpace cs \<noteq> []"
        by (metis collapseWhitespace.simps(1) list.distinct(1))
      then have "\<not> isWhiteSpace (hd (dropWhile isWhiteSpace cs))"
        by (rule hd_dropWhile)
      moreover from b have "b = hd (collapseWhitespace (dropWhile isWhiteSpace cs))" by simp
      ultimately have "\<not> isWhiteSpace b"
        using b by (cases "dropWhile isWhiteSpace cs") (auto split: if_splits)
      then show ?thesis by simp
    next
      case (Cons x p')
      with 2(3) w have "collapseWhitespace (dropWhile isWhiteSpace cs) = p' @ a # b # q" by simp
      with 2(1) w show ?thesis by blast
    qed
  next
    case False
    note nw = this
    show ?thesis
    proof (cases p)
      case Nil
      with 2(3) nw have "a = c" by simp
      with nw show ?thesis by simp
    next
      case (Cons x p')
      with 2(3) nw have "collapseWhitespace cs = p' @ a # b # q" by simp
      with 2(2) nw show ?thesis by blast
    qed
  qed
qed

lemma trim_inside:
  "\<exists>p q. s = p @ trim s @ q \<and> (\<forall>c\<in>set p. isWhiteSpace c) \<and> (\<forall>c\<in>set q. isWhiteSpace c)"
proof -
  let ?d = "dropWhile isWhiteSpace s"
  have 1: "s = takeWhile isWhiteSpace s @ ?d" by simp
  have 2: "rev ?d = takeWhile isWhiteSpace (rev ?d) @ dropWhile isWhiteSpace (rev ?d)" by simp
  have "?d = rev (rev ?d)" by simp
  also have "\<dots> = rev (dropWhile isWhiteSpace (rev ?d)) @ rev (takeWhile isWhiteSpace (rev ?d))"
    by (subst 2) (simp only: rev_append)
  finally have 3: "?d = trim s @ rev (takeWhile isWhiteSpace (rev ?d))"
    by (simp add: trim_def)
  have "s = takeWhile isWhiteSpace s @ trim s @ rev (takeWhile isWhiteSpace (rev ?d))"
    using 1 3 by metis
  moreover have "\<forall>c\<in>set (takeWhile isWhiteSpace s). isWhiteSpace c"
    by (auto dest: set_takeWhileD)
  moreover have "\<forall>c\<in>set (rev (takeWhile isWhiteSpace (rev ?d))). isWhiteSpace c"
    by (auto dest: set_takeWhileD)
  ultimately show ?thesis by blast
qed

lemma trim_ends:
  "trim s \<noteq> [] \<Longrightarrow> \<not> isWhiteSpace (hd (trim s)) \<and> \<not> isWhiteSpace (last (trim s))"
proof
  assume n: "trim s \<noteq> []"
  let ?d = "dropWhile isWhiteSpace s"
  let ?e = "dropWhile isWhiteSpace (rev ?d)"
  from n have e: "?e \<noteq> []" by (simp add: trim_def)
  then have "\<not> isWhiteSpace (hd ?e)" by (rule hd_dropWhile)
  then show "\<not> isWhiteSpace (last (trim s))"
    using e by (simp add: trim_def last_rev)
  from e have d: "?d \<noteq> []"
    by (metis dropWhile.simps(1) rev.simps(1))
  then have hd: "\<not> isWhiteSpace (hd ?d)" by (rule hd_dropWhile)
  have "rev ?d = takeWhile isWhiteSpace (rev ?d) @ ?e" by simp
  then have "?d = rev ?e @ rev (takeWhile isWhiteSpace (rev ?d))"
    by (metis rev_append rev_rev_ident)
  with e have "hd ?d = hd (rev ?e)" by (metis hd_append2 rev_is_Nil_conv)
  with hd show "\<not> isWhiteSpace (hd (trim s))" by (simp add: trim_def)
qed

lemma find_first:
  "(\<forall>m\<in>set pre. \<not> P m) \<Longrightarrow> P u \<Longrightarrow> find P (pre @ u # post) = Some u"
  by (induction pre) auto


section \<open>Capacity\<close>

lemma ensureCapacity_length: "length (ensureCapacity S) \<le> MAX_SESSION_HISTORY"
  by (simp add: ensureCapacity_def slice_last_length)

lemma ensureCapacity_within: "length S \<le> MAX_SESSION_HISTORY \<Longrightarrow> ensureCapacity S = S"
  by (simp add: ensureCapacity_def)

lemma ensureCapacity_over:
  "MAX_SESSION_HISTORY < length S \<Longrightarrow>
   ensureCapacity S =
     map (\<lambda>session. session\<lparr>s_messages := slice_last 200 (s_messages session)\<rparr>)
       (drop (length S - MAX_SESSION_HISTORY) S)"
  by (simp add: ensureCapacity_def slice_last_def)

lemma ensureCapacity_front_evicted:
  assumes "length olds = MAX_SESSION_HISTORY"
    and "\<forall>s\<in>set olds. length (s_messages s) \<le> 200"
  shows "ensureCapacity (newest # olds) = olds"
proof -
  have "MAX_SESSION_HISTORY < length (newest # olds)"
    using assms(1) by simp
  then have "ensureCapacity (newest # olds) =
      map (\<lambda>session. session\<lparr>s_messages := slice_last 200 (s_messages session)\<rparr>)
       (drop (length (newest # olds) - MAX_SESSION_HISTORY) (newest # olds))"
    by (rule ensureCapacity_over)
  also have "drop (length (newest # olds) - MAX_SESSION_HISTORY) (newest # olds) = olds"
    using assms(1) by simp
  also have "map (\<lambda>session. session\<lparr>s_messages := slice_last 200 (s_messages session)\<rparr>) olds = olds"
    using assms(2) by (simp add: slice_last_all map_idI)
  finally show ?thesis .
qed

lemma handleNewChat_sessions:
  "st_sessions (handleNewChat u t ok st) = createEmptySession u t # st_sessions st"
  by (simp add: handleNewChat_def Let_def)

lemma handleNewChat_fold:
  "st_sessions (fold (\<lambda>n. handleNewChat (uuid n) (timestamp n) ok) ns st) =
   map (\<lambda>n. createEmptySession (uuid n) (timestamp n)) (rev ns) @ st_sessions st"
  by (induction ns arbitrary: st) (simp_all add: handleNewChat_sessions)

text \<open>
  C1. The claim: on a collection ordered newest-created first, \<open>ensureCapacity\<close> keeps the 75
  most recently created sessions. The code keeps the last 75 by position. \<open>handleNewChat\<close>
  puts each new session at the front, so after 76 new chats from an empty collection the
  payload that is saved holds the 75 sessions created first and not the one created last.
\<close>

theorem ensureCapacity_evicts_newest:
  "ensureCapacity
     (st_sessions
        (fold (\<lambda>n. handleNewChat (uuid n) (timestamp n) ok) [0..<76] (st\<lparr>st_sessions := []\<rparr>))) =
   map (\<lambda>n. createEmptySession (uuid n) (timestamp n)) (rev [0..<75])"
proof -
  have u: "[0..<76] = [0..<75] @ [75]"
    using upt_Suc_append [of 0 75] by simp
  have "st_sessions
        (fold (\<lambda>n. handleNewChat (uuid n) (timestamp n) ok) [0..<76] (st\<lparr>st_sessions := []\<rparr>)) =
      createEmptySession (uuid 75) (timestamp 75) #
      map (\<lambda>n. createEmptySession (uuid n) (timestamp n)) (rev [0..<75])"
    by (simp only: handleNewChat_fold u) simp
  moreover have "length (map (\<lambda>n. createEmptySession (uuid n) (timestamp n)) (rev [0..<75])) =
      MAX_SESSION_HISTORY"
    by (simp add: MAX_SESSION_HISTORY_def)
  moreover have "\<forall>s\<in>set (map (\<lambda>n. createEmptySession (uuid n) (timestamp n)) (rev [0..<75])).
      length (s_messages s) \<le> 200"
    by (simp add: createEmptySession_def)
  ultimately show ?thesis
    by (simp only: ensureCapacity_front_evicted)
qed

text \<open>
  C10. \<open>ensureCapacity\<close> is idempotent: what it returns has at most 75 sessions, and a
  collection of at most 75 sessions is returned as it is, whatever the length of the message
  lists in it.
\<close>

theorem ensureCapacity_idempotent:
  "ensureCapacity (ensureCapacity S) = ensureCapacity S \<and>
   length (ensureCapacity S) \<le> 75 \<and>
   (length S \<le> 75 \<longrightarrow> ensureCapacity S = S)"
proof (intro conjI)
  show "ensureCapacity (ensureCapacity S) = ensureCapacity S"
    by (rule ensureCapacity_within) (rule ensureCapacity_length)
  show "length (ensureCapacity S) \<le> 75"
    using ensureCapacity_length [of S] by (simp add: MAX_SESSION_HISTORY_def)
  show "length S \<le> 75 \<longrightarrow> ensureCapacity S = S"
    by (simp add: ensureCapacity_def MAX_SESSION_HISTORY_def)
qed

theorem ensureCapacity_idempotent_witness:
  "length [(createEmptySession (js ''s1'') (js ''t1''))
             \<lparr>s_messages := replicate 201
                \<lparr>m_id = js ''m'', m_role = User, m_content = js ''hi'', m_createdAt = js ''t1''\<rparr>\<rparr>] \<le> 75 \<and>
   length (s_messages (hd (ensureCapacity
     [(createEmptySession (js ''s1'') (js ''t1''))
        \<lparr>s_messages := replicate 201
           \<lparr>m_id = js ''m'', m_role = User, m_content = js ''hi'', m_createdAt = js ''t1''\<rparr>\<rparr>]))) = 201"
  using ensureCapacity_idempotent
    [of "[(createEmptySession (js ''s1'') (js ''t1''))
             \<lparr>s_messages := replicate 201
                \<lparr>m_id = js ''m'', m_role = User, m_content = js ''hi'', m_createdAt = js ''t1''\<rparr>\<rparr>]"]
  by simp


section \<open>Titles\<close>

text \<open>
  C2, as it stands, at a user message whose content is the default title: the sequence has
  a user message and \<open>deriveTitle\<close> still returns \<open>"New chat"\<close>, so the "only if" half of
  the claim fails.
\<close>

theorem deriveTitle_iff_counterexample:
  "m_role \<lparr>m_id = js ''m1'', m_role = User, m_content = js ''New chat'',
           m_createdAt = js ''2024-01-01T00:00:00.000Z''\<rparr> = User \<and>
   deriveTitle [\<lparr>m_id = js ''m1'', m_role = User, m_content = js ''New chat'',
                 m_createdAt = js ''2024-01-01T00:00:00.000Z''\<rparr>] = js ''New chat''"
  by (simp add: deriveTitle_def titleOfContent_def trim_def js_def isWhiteSpace_def)

text \<open>
  C2, amended. A sequence with no user message gives \<open>"New chat"\<close>. Otherwise the title comes
  from the content of the first user message, trimmed and with its white space collapsed:
  that string itself when it has at most 45 code units, else its first 45 code units and
  the ellipsis; in both cases at most 46 code units.
\<close>

theorem deriveTitle_first_user:
  "((\<forall>m\<in>set M. m_role m \<noteq> User) \<longrightarrow> deriveTitle M = js ''New chat'') \<and>
   (M = pre @ u # post \<and> (\<forall>m\<in>set pre. m_role m \<noteq> User) \<and> m_role u = User \<longrightarrow>
      deriveTitle M =
        (if length (collapseWhitespace (trim (m_content u))) \<le> 45
         then collapseWhitespace (trim (m_content u))
         else take 45 (collapseWhitespace (trim (m_content u))) @ [0x2026]) \<and>
      length (deriveTitle M) \<le> 46)"
proof (intro conjI impI)
  assume "\<forall>m\<in>set M. m_role m \<noteq> User"
  then have "find (\<lambda>message. m_role message = User) M = None"
    by (simp add: find_None_iff)
  then show "deriveTitle M = js ''New chat''"
    by (simp add: deriveTitle_def)
next
  assume a: "M = pre @ u # post \<and> (\<forall>m\<in>set pre. m_role m \<noteq> User) \<and> m_role u = User"
  then have f: "find (\<lambda>message. m_role message = User) M = Some u"
    using find_first [of pre "\<lambda>message. m_role message = User" u post] by simp
  then have d: "deriveTitle M = titleOfContent (m_content u)"
    by (simp add: deriveTitle_def)
  show "deriveTitle M =
        (if length (collapseWhitespace (trim (m_content u))) \<le> 45
         then collapseWhitespace (trim (m_content u))
         else take 45 (collapseWhitespace (trim (m_content u))) @ [0x2026])"
    by (simp add: d titleOfContent_def Let_def)
  show "length (deriveTitle M) \<le> 46"
    by (simp add: d titleOfContent_length)
qed

theorem deriveTitle_first_user_witness:
  "deriveTitle
     [\<lparr>m_id = js ''m0'', m_role = Assistant, m_content = js ''Hi'', m_createdAt = js ''t0''\<rparr>,
      \<lparr>m_id = js ''m1'', m_role = User, m_content = js ''  a   b '', m_createdAt = js ''t1''\<rparr>] =
     js ''a b'' \<and>
   deriveTitle
     [\<lparr>m_id = js ''m0'', m_role = Assistant, m_content = js ''Hi'', m_createdAt = js ''t0''\<rparr>] =
     js ''New chat''"
  using
    deriveTitle_first_user
      [of "[\<lparr>m_id = js ''m0'', m_role = Assistant, m_content = js ''Hi'', m_createdAt = js ''t0''\<rparr>,
            \<lparr>m_id = js ''m1'', m_role = User, m_content = js ''  a   b '', m_createdAt = js ''t1''\<rparr>]"
          "[\<lparr>m_id = js ''m0'', m_role = Assistant, m_content = js ''Hi'', m_createdAt = js ''t0''\<rparr>]"
          "\<lparr>m_id = js ''m1'', m_role = User, m_content = js ''  a   b '', m_createdAt = js ''t1''\<rparr>"
          "[]"]
    deriveTitle_first_user
      [of "[\<lparr>m_id = js ''m0'', m_role = Assistant, m_content = js ''Hi'', m_createdAt = js ''t0''\<rparr>]"
          "[]"
          "\<lparr>m_id = js ''m0'', m_role = Assistant, m_content = js ''Hi'', m_createdAt = js ''t0''\<rparr>"
          "[]"]
  by (simp add: trim_def js_def isWhiteSpace_def)


section \<open>Saving\<close>

lemma quota_shift:
  "\<forall>i<Suc k. \<exists>e. setItem (n + i) = Some e \<and> isQuotaError e \<Longrightarrow>
   (\<exists>e. setItem n = Some e \<and> isQuotaError e) \<and>
   (\<forall>i<k. \<exists>e. setItem (Suc n + i) = Some e \<and> isQuotaError e)"
proof
  assume a: "\<forall>i<Suc k. \<exists>e. setItem (n + i) = Some e \<and> isQuotaError e"
  from a have "\<exists>e. setItem (n + 0) = Some e \<and> isQuotaError e" by blast
  then show "\<exists>e. setItem n = Some e \<and> isQuotaError e" by simp
  show "\<forall>i<k. \<exists>e. setItem (Suc n + i) = Some e \<and> isQuotaError e"
  proof (intro allI impI)
    fix i assume "i < k"
    then have "Suc i < Suc k" by simp
    with a have "\<exists>e. setItem (n + Suc i) = Some e \<and> isQuotaError e" by blast
    then show "\<exists>e. setItem (Suc n + i) = Some e \<and> isQuotaError e" by simp
  qed
qed

lemma persist_loop_success:
  "k < length P \<Longrightarrow> (\<forall>i<k. \<exists>e. setItem (n + i) = Some e \<and> isQuotaError e) \<Longrightarrow>
   setItem (n + k) = None \<Longrightarrow>
   persist_loop str setItem n P ls = (ls(STORAGE_KEY \<mapsto> str (drop k P)), Suc (n + k))"
proof (induction P arbitrary: n k)
  case Nil
  then show ?case by simp
next
  case (Cons p ps)
  show ?case
  proof (cases k)
    case 0
    with Cons.prems(3) show ?thesis by (simp add: fun_upd_def)
  next
    case (Suc k')
    from Cons.prems(2) Suc quota_shift [of k' setItem n]
    obtain e where e: "setItem n = Some e" "isQuotaError e"
      and q: "\<forall>i<k'. \<exists>e. setItem (Suc n + i) = Some e \<and> isQuotaError e"
      by blast
    have l: "k' < length ps" using Cons.prems(1) Suc by simp
    have s: "setItem (Suc n + k') = None" using Cons.prems(3) Suc by simp
    have "persist_loop str setItem (Suc n) ps ls =
        (ls(STORAGE_KEY \<mapsto> str (drop k' ps)), Suc (Suc n + k'))"
      by (rule Cons.IH [OF l q s])
    with e Suc show ?thesis by (simp add: fun_upd_def)
  qed
qed

lemma persist_loop_other_failure:
  "k < length P \<Longrightarrow> (\<forall>i<k. \<exists>e. setItem (n + i) = Some e \<and> isQuotaError e) \<Longrightarrow>
   setItem (n + k) = Some err \<Longrightarrow> \<not> isQuotaError err \<Longrightarrow>
   persist_loop str setItem n P ls = (ls, Suc (n + k))"
proof (induction P arbitrary: n k)
  case Nil
  then show ?case by simp
next
  case (Cons p ps)
  show ?case
  proof (cases k)
    case 0
    with Cons.prems(3,4) show ?thesis by simp
  next
    case (Suc k')
    from Cons.prems(2) Suc quota_shift [of k' setItem n]
    obtain e where e: "setItem n = Some e" "isQuotaError e"
      and q: "\<forall>i<k'. \<exists>e. setItem (Suc n + i) = Some e \<and> isQuotaError e"
      by blast
    have l: "k' < length ps" using Cons.prems(1) Suc by simp
    have s: "setItem (Suc n + k') = Some err" using Cons.prems(3) Suc by simp
    have "persist_loop str setItem (Suc n) ps ls = (ls, Suc (Suc n + k'))"
      by (rule Cons.IH [OF l q s Cons.prems(4)])
    with e Suc show ?thesis by simp
  qed
qed

lemma persist_loop_exhausted:
  "(\<forall>i<length P. \<exists>e. setItem (n + i) = Some e \<and> isQuotaError e) \<Longrightarrow>
   persist_loop str setItem n P ls = (ls, n + length P)"
proof (induction P arbitrary: n)
  case Nil
  then show ?case by simp
next
  case (Cons p ps)
  from Cons.prems quota_shift [of "length ps" setItem n]
  obtain e where e: "setItem n = Some e" "isQuotaError e"
    and q: "\<forall>i<length ps. \<exists>e. setItem (Suc n + i) = Some e \<and> isQuotaError e"
    by auto
  have "persist_loop str setItem (Suc n) ps ls = (ls, Suc n + length ps)"
    by (rule Cons.IH [OF q])
  with e show ?case by simp
qed

lemma persist_loop_calls: "snd (persist_loop str setItem n P ls) \<le> n + length P"
proof (induction P arbitrary: n)
  case Nil
  then show ?case by simp
next
  case (Cons p ps)
  have "snd (persist_loop str setItem (Suc n) ps ls) \<le> Suc n + length ps"
    by (rule Cons.IH)
  then show ?case by (simp split: option.splits)
qed

text \<open>
  What a save does, outcome by outcome. It works on the payload \<open>ensureCapacity sessions\<close>.
  While \<open>setItem\<close> throws a quota error the front element of the payload is dropped and
  the write is tried again. If the first \<open>k\<close> writes throw quota errors and the next one
  succeeds, the slot holds the serialisation of the payload without its first \<open>k\<close>
  elements, after \<open>k + 1\<close> writes. If the next one throws anything else, the storage is as
  before and no further write is made. If every write throws a quota error until the
  payload is empty, the storage is as before. The loop makes at most one write for each
  element of the payload, and it returns in every case.
\<close>

lemma persistToStorage_outcomes:
  "(k < length (ensureCapacity sessions) \<and>
    (\<forall>i<k. \<exists>e. setItem i = Some e \<and> isQuotaError e) \<and> setItem k = None \<longrightarrow>
      persistToStorage str setItem sessions (Some ls) =
        (Some (ls(STORAGE_KEY \<mapsto> str (drop k (ensureCapacity sessions)))), Suc k)) \<and>
   (k < length (ensureCapacity sessions) \<and>
    (\<forall>i<k. \<exists>e. setItem i = Some e \<and> isQuotaError e) \<and>
    setItem k = Some err \<and> \<not> isQuotaError err \<longrightarrow>
      persistToStorage str setItem sessions (Some ls) = (Some ls, Suc k)) \<and>
   ((\<forall>i<length (ensureCapacity sessions). \<exists>e. setItem i = Some e \<and> isQuotaError e) \<longrightarrow>
      persistToStorage str setItem sessions (Some ls) =
        (Some ls, length (ensureCapacity sessions))) \<and>
   snd (persistToStorage str setItem sessions (Some ls)) \<le> length (ensureCapacity sessions)"
proof (intro conjI impI)
  assume "k < length (ensureCapacity sessions) \<and>
    (\<forall>i<k. \<exists>e. setItem i = Some e \<and> isQuotaError e) \<and> setItem k = None"
  then show "persistToStorage str setItem sessions (Some ls) =
        (Some (ls(STORAGE_KEY \<mapsto> str (drop k (ensureCapacity sessions)))), Suc k)"
    using persist_loop_success [of k "ensureCapacity sessions" setItem 0 str ls]
    by (simp add: persistToStorage_def)
next
  assume "k < length (ensureCapacity sessions) \<and>
    (\<forall>i<k. \<exists>e. setItem i = Some e \<and> isQuotaError e) \<and>
    setItem k = Some err \<and> \<not> isQuotaError err"
  then show "persistToStorage str setItem sessions (Some ls) = (Some ls, Suc k)"
    using persist_loop_other_failure [of k "ensureCapacity sessions" setItem 0 err str ls]
    by (simp add: persistToStorage_def)
next
  assume "\<forall>i<length (ensureCapacity sessions). \<exists>e. setItem i = Some e \<and> isQuotaError e"
  then show "persistToStorage str setItem sessions (Some ls) =
        (Some ls, length (ensureCapacity sessions))"
    using persist_loop_exhausted [of "ensureCapacity sessions" setItem 0 str ls]
    by (simp add: persistToStorage_def)
next
  show "snd (persistToStorage str setItem sessions (Some ls)) \<le> length (ensureCapacity sessions)"
    using persist_loop_calls [of str setItem 0 "ensureCapacity sessions" ls]
    by (simp add: persistToStorage_def case_prod_beta Let_def)
qed

lemma quota_names:
  "isQuotaError (DOMException (js ''QuotaExceededError''))"
  "isQuotaError (DOMException (js ''NS_ERROR_DOM_QUOTA_REACHED''))"
  "\<not> isQuotaError (DOMException (js ''SecurityError''))"
  "\<not> isQuotaError TypeError"
  by (simp_all add: isQuotaError_def js_eq_iff)

lemma new_chats_sessions:
  "st_sessions (fold (\<lambda>n. handleNewChat (uuid n) (timestamp n) ok) [0..<Suc m]
      (st\<lparr>st_sessions := []\<rparr>)) =
   createEmptySession (uuid m) (timestamp m) #
   map (\<lambda>n. createEmptySession (uuid n) (timestamp n)) (rev [0..<m])"
  by (simp only: handleNewChat_fold upt_Suc_append [OF le0]) simp

lemma persistToStorage_one_quota:
  assumes "ensureCapacity sessions = p # q # qs"
    and "setItem 0 = Some e" and "isQuotaError e" and "setItem (Suc 0) = None"
  shows "persistToStorage str setItem sessions (Some ls) =
         (Some (ls(STORAGE_KEY \<mapsto> str (q # qs))), 2)"
  using assms by (simp add: persistToStorage_def)

text \<open>
  C3. The claim: a save applies capacity enforcement and then, on each quota failure, evicts
  the oldest session and tries again. The code drops the front element of the payload, and
  \<open>handleNewChat\<close> puts each new session at the front. After three new chats from an empty
  collection, a first write that throws a quota error and a second that succeeds, the slot
  holds the two sessions created first: the session created last is the one evicted. After
  76 new chats, capacity enforcement has already dropped the newest session, and the quota
  error evicts the next newest.
\<close>

theorem persistToStorage_evicts_newest:
  "persistToStorage str
     (\<lambda>i. if i = 0 then Some (DOMException (js ''QuotaExceededError'')) else None)
     (st_sessions
        (fold (\<lambda>n. handleNewChat (uuid n) (timestamp n) ok) [0..<3] (st\<lparr>st_sessions := []\<rparr>)))
     (Some ls) =
     (Some (ls(STORAGE_KEY \<mapsto>
         str [createEmptySession (uuid 1) (timestamp 1),
              createEmptySession (uuid 0) (timestamp 0)])), 2) \<and>
   persistToStorage str
     (\<lambda>i. if i = 0 then Some (DOMException (js ''QuotaExceededError'')) else None)
     (st_sessions
        (fold (\<lambda>n. handleNewChat (uuid n) (timestamp n) ok) [0..<76] (st\<lparr>st_sessions := []\<rparr>)))
     (Some ls) =
     (Some (ls(STORAGE_KEY \<mapsto>
         str (map (\<lambda>n. createEmptySession (uuid n) (timestamp n)) (rev [0..<74])))), 2)"
proof
  let ?w = "\<lambda>i::nat. if i = 0 then Some (DOMException (js ''QuotaExceededError'')) else None"
  let ?f = "\<lambda>n. createEmptySession (uuid n) (timestamp n)"
  let ?new = "\<lambda>m. st_sessions
        (fold (\<lambda>n. handleNewChat (uuid n) (timestamp n) ok) [0..<m] (st\<lparr>st_sessions := []\<rparr>))"
  have w0: "?w 0 = Some (DOMException (js ''QuotaExceededError''))" by simp
  have w1: "?w (Suc 0) = None" by simp
  have quota: "isQuotaError (DOMException (js ''QuotaExceededError''))"
    by (simp add: isQuotaError_def)
  have r: "rev [0..<n] = m # rev [0..<m]" if "n = Suc m" for n m
    using that by simp
  have r2: "rev [0..<2] = 1 # rev [0..<1]" by (rule r) simp
  have r74: "rev [0..<74] = 73 # rev [0..<73]" by (rule r) simp
  have r75: "rev [0..<75] = 74 # rev [0..<74]" by (rule r) simp
  have n3: "[0..<3] = [0..<Suc 2]" by simp
  have n76: "[0..<76] = [0..<Suc 75]" by simp
  have s3: "?new 3 = ?f 2 # map ?f (rev [0..<2])"
    unfolding n3 by (rule new_chats_sessions)
  have "length (?f 2 # map ?f (rev [0..<2])) \<le> MAX_SESSION_HISTORY"
    by (simp add: MAX_SESSION_HISTORY_def)
  then have "ensureCapacity (?new 3) = ?f 2 # map ?f (rev [0..<2])"
    by (simp only: s3 ensureCapacity_within)
  also have "map ?f (rev [0..<2]) = ?f 1 # map ?f (rev [0..<1])"
    by (simp only: r2 list.map)
  finally have c3: "ensureCapacity (?new 3) = ?f 2 # ?f 1 # map ?f (rev [0..<1])" .
  have "persistToStorage str ?w (?new 3) (Some ls) =
      (Some (ls(STORAGE_KEY \<mapsto> str (?f 1 # map ?f (rev [0..<1])))), 2)"
    by (rule persistToStorage_one_quota [OF c3 w0 quota w1])
  also have "?f 1 # map ?f (rev [0..<1]) = [?f 1, ?f 0]"
    by simp
  finally show "persistToStorage str ?w (?new 3) (Some ls) =
      (Some (ls(STORAGE_KEY \<mapsto> str [?f 1, ?f 0])), 2)" .
  have s76: "?new 76 = ?f 75 # map ?f (rev [0..<75])"
    unfolding n76 by (rule new_chats_sessions)
  have "ensureCapacity (?f 75 # map ?f (rev [0..<75])) = map ?f (rev [0..<75])"
    by (rule ensureCapacity_front_evicted)
       (simp_all add: MAX_SESSION_HISTORY_def createEmptySession_def)
  also have "map ?f (rev [0..<75]) = ?f 74 # map ?f (rev [0..<74])"
    by (simp only: r75 list.map)
  also have "map ?f (rev [0..<74]) = ?f 73 # map ?f (rev [0..<73])"
    by (simp only: r74 list.map)
  finally have c76: "ensureCapacity (?new 76) = ?f 74 # ?f 73 # map ?f (rev [0..<73])"
    by (simp only: s76)
  have "persistToStorage str ?w (?new 76) (Some ls) =
      (Some (ls(STORAGE_KEY \<mapsto> str (?f 73 # map ?f (rev [0..<73])))), 2)"
    by (rule persistToStorage_one_quota [OF c76 w0 quota w1])
  also have "?f 73 # map ?f (rev [0..<73]) = map ?f (rev [0..<74])"
    by (simp only: r74 list.map)
  finally show "persistToStorage str ?w (?new 76) (Some ls) =
      (Some (ls(STORAGE_KEY \<mapsto> str (map ?f (rev [0..<74])))), 2)" .
qed


section \<open>Search\<close>

text \<open>
  C6. A search term that is empty or made of white space only gives the collection as it
  is. Any other term gives, in their order, exactly the sessions in which the lower-cased
  term occurs inside the lower-cased title or inside the lower-cased content of one of the
  messages, and so the empty sequence when it occurs in none. The collection is an argument
  of a function: the search returns a list and changes nothing.
\<close>

theorem filteredSessions_search:
  "((\<forall>c\<in>set searchTerm. isWhiteSpace c) \<longrightarrow>
      filteredSessions toLowerCase S searchTerm = S) \<and>
   (\<not> (\<forall>c\<in>set searchTerm. isWhiteSpace c) \<longrightarrow>
      filteredSessions toLowerCase S searchTerm =
        filter (\<lambda>session.
                  (\<exists>p q. toLowerCase (s_title session) = p @ toLowerCase searchTerm @ q) \<or>
                  (\<exists>message\<in>set (s_messages session).
                     \<exists>p q. toLowerCase (m_content message) = p @ toLowerCase searchTerm @ q)) S \<and>
      ((\<forall>session\<in>set S.
          \<not> (\<exists>p q. toLowerCase (s_title session) = p @ toLowerCase searchTerm @ q) \<and>
          (\<forall>message\<in>set (s_messages session).
             \<not> (\<exists>p q. toLowerCase (m_content message) = p @ toLowerCase searchTerm @ q))) \<longrightarrow>
       filteredSessions toLowerCase S searchTerm = []))"
proof (intro conjI impI)
  assume "\<forall>c\<in>set searchTerm. isWhiteSpace c"
  then show "filteredSessions toLowerCase S searchTerm = S"
    by (simp add: filteredSessions_def trim_empty_iff)
next
  assume nb: "\<not> (\<forall>c\<in>set searchTerm. isWhiteSpace c)"
  then have t: "trim searchTerm \<noteq> []" by (simp add: trim_empty_iff)
  show eq: "filteredSessions toLowerCase S searchTerm =
        filter (\<lambda>session.
                  (\<exists>p q. toLowerCase (s_title session) = p @ toLowerCase searchTerm @ q) \<or>
                  (\<exists>message\<in>set (s_messages session).
                     \<exists>p q. toLowerCase (m_content message) = p @ toLowerCase searchTerm @ q)) S"
    using t by (simp add: filteredSessions_def Let_def js_includes_iff list_ex_iff)
  assume "\<forall>session\<in>set S.
          \<not> (\<exists>p q. toLowerCase (s_title session) = p @ toLowerCase searchTerm @ q) \<and>
          (\<forall>message\<in>set (s_messages session).
             \<not> (\<exists>p q. toLowerCase (m_content message) = p @ toLowerCase searchTerm @ q))"
  then show "filteredSessions toLowerCase S searchTerm = []"
    unfolding eq by (simp add: filter_empty_conv)
qed

theorem filteredSessions_search_witness:
  "filteredSessions toLowerCase_ascii
     [(createEmptySession (js ''s1'') (js ''t1''))\<lparr>s_title := js ''Trip to Rome''\<rparr>,
      (createEmptySession (js ''s2'') (js ''t2''))
        \<lparr>s_messages := [\<lparr>m_id = js ''m1'', m_role = Assistant, m_content = js ''ROME it is'',
                          m_createdAt = js ''t2''\<rparr>]\<rparr>,
      createEmptySession (js ''s3'') (js ''t3'')]
     (js ''Rome'') =
     [(createEmptySession (js ''s1'') (js ''t1''))\<lparr>s_title := js ''Trip to Rome''\<rparr>,
      (createEmptySession (js ''s2'') (js ''t2''))
        \<lparr>s_messages := [\<lparr>m_id = js ''m1'', m_role = Assistant, m_content = js ''ROME it is'',
                          m_createdAt = js ''t2''\<rparr>]\<rparr>] \<and>
   filteredSessions toLowerCase_ascii
     [(createEmptySession (js ''s1'') (js ''t1''))\<lparr>s_title := js ''Trip to Rome''\<rparr>,
      createEmptySession (js ''s3'') (js ''t3'')]
     (js ''  '') =
     [(createEmptySession (js ''s1'') (js ''t1''))\<lparr>s_title := js ''Trip to Rome''\<rparr>,
      createEmptySession (js ''s3'') (js ''t3'')] \<and>
   filteredSessions toLowerCase_ascii
     [(createEmptySession (js ''s1'') (js ''t1''))\<lparr>s_title := js ''Trip to Rome''\<rparr>,
      createEmptySession (js ''s3'') (js ''t3'')]
     (js ''Oslo'') = []"
  using
    filteredSessions_search
      [of "js ''Rome''" toLowerCase_ascii
          "[(createEmptySession (js ''s1'') (js ''t1''))\<lparr>s_title := js ''Trip to Rome''\<rparr>,
            (createEmptySession (js ''s2'') (js ''t2''))
              \<lparr>s_messages := [\<lparr>m_id = js ''m1'', m_role = Assistant, m_content = js ''ROME it is'',
                                m_createdAt = js ''t2''\<rparr>]\<rparr>,
            createEmptySession (js ''s3'') (js ''t3'')]"]
    filteredSessions_search
      [of "js ''  ''" toLowerCase_ascii
          "[(createEmptySession (js ''s1'') (js ''t1''))\<lparr>s_title := js ''Trip to Rome''\<rparr>,
            createEmptySession (js ''s3'') (js ''t3'')]"]
    filteredSessions_search
      [of "js ''Oslo''" toLowerCase_ascii
          "[(createEmptySession (js ''s1'') (js ''t1''))\<lparr>s_title := js ''Trip to Rome''\<rparr>,
            createEmptySession (js ''s3'') (js ''t3'')]"]
  by (simp add: filteredSessions_def trim_def toLowerCase_ascii_def createEmptySession_def
        js_def isWhiteSpace_def)


section \<open>Deleting a session\<close>

text \<open>
  C7. \<open>handleDeleteSession\<close> keeps, in their order and as they are, the sessions whose id is
  not the one given. If none is left, the collection becomes one fresh empty session, which
  is made active; this is what happens when the only session is deleted. If some are left,
  they are the new collection; the first of them becomes active when the deleted id was the
  active one, and the active id stays as it was otherwise.
\<close>

theorem handleDeleteSession_spec:
  "(filter (\<lambda>session. s_id session \<noteq> sessionId) (st_sessions st) = [] \<longrightarrow>
      st_sessions (handleDeleteSession uuid timestamp ok sessionId st) =
        [\<lparr>s_id = uuid, s_title = js ''New chat'', s_messages = [],
          s_createdAt = timestamp, s_updatedAt = timestamp\<rparr>] \<and>
      st_activeSessionId (handleDeleteSession uuid timestamp ok sessionId st) = Some uuid) \<and>
   (filter (\<lambda>session. s_id session \<noteq> sessionId) (st_sessions st) \<noteq> [] \<longrightarrow>
      st_sessions (handleDeleteSession uuid timestamp ok sessionId st) =
        filter (\<lambda>session. s_id session \<noteq> sessionId) (st_sessions st) \<and>
      (st_activeSessionId st = Some sessionId \<longrightarrow>
         st_activeSessionId (handleDeleteSession uuid timestamp ok sessionId st) =
           Some (s_id (hd (filter (\<lambda>session. s_id session \<noteq> sessionId) (st_sessions st))))) \<and>
      (st_activeSessionId st \<noteq> Some sessionId \<longrightarrow>
         st_activeSessionId (handleDeleteSession uuid timestamp ok sessionId st) =
           st_activeSessionId st)) \<and>
   (st_sessions st = [only] \<and> s_id only = sessionId \<longrightarrow>
      st_sessions (handleDeleteSession uuid timestamp ok sessionId st) =
        [\<lparr>s_id = uuid, s_title = js ''New chat'', s_messages = [],
          s_createdAt = timestamp, s_updatedAt = timestamp\<rparr>] \<and>
      st_activeSessionId (handleDeleteSession uuid timestamp ok sessionId st) = Some uuid)"
proof (intro conjI)
  show "filter (\<lambda>session. s_id session \<noteq> sessionId) (st_sessions st) = [] \<longrightarrow>
      st_sessions (handleDeleteSession uuid timestamp ok sessionId st) =
        [\<lparr>s_id = uuid, s_title = js ''New chat'', s_messages = [],
          s_createdAt = timestamp, s_updatedAt = timestamp\<rparr>] \<and>
      st_activeSessionId (handleDeleteSession uuid timestamp ok sessionId st) = Some uuid"
    by (simp add: handleDeleteSession_def Let_def createEmptySession_def)
  show "filter (\<lambda>session. s_id session \<noteq> sessionId) (st_sessions st) \<noteq> [] \<longrightarrow>
      st_sessions (handleDeleteSession uuid timestamp ok sessionId st) =
        filter (\<lambda>session. s_id session \<noteq> sessionId) (st_sessions st) \<and>
      (st_activeSessionId st = Some sessionId \<longrightarrow>
         st_activeSessionId (handleDeleteSession uuid timestamp ok sessionId st) =
           Some (s_id (hd (filter (\<lambda>session. s_id session \<noteq> sessionId) (st_sessions st))))) \<and>
      (st_activeSessionId st \<noteq> Some sessionId \<longrightarrow>
         st_activeSessionId (handleDeleteSession uuid timestamp ok sessionId st) =
           st_activeSessionId st)"
    by (cases "filter (\<lambda>session. s_id session \<noteq> sessionId) (st_sessions st)")
       (simp_all add: handleDeleteSession_def Let_def)
  show "st_sessions st = [only] \<and> s_id only = sessionId \<longrightarrow>
      st_sessions (handleDeleteSession uuid timestamp ok sessionId st) =
        [\<lparr>s_id = uuid, s_title = js ''New chat'', s_messages = [],
          s_createdAt = timestamp, s_updatedAt = timestamp\<rparr>] \<and>
      st_activeSessionId (handleDeleteSession uuid timestamp ok sessionId st) = Some uuid"
    by (simp add: handleDeleteSession_def Let_def createEmptySession_def)
qed

theorem handleDeleteSession_spec_witness:
  "st_sessions (handleDeleteSession (js ''s9'') (js ''t9'') True (js ''s1'')
     \<lparr>st_sessions = [createEmptySession (js ''s1'') (js ''t1'')],
      st_activeSessionId = Some (js ''s1''), st_window = None\<rparr>) =
     [createEmptySession (js ''s9'') (js ''t9'')] \<and>
   st_activeSessionId (handleDeleteSession (js ''s9'') (js ''t9'') True (js ''s1'')
     \<lparr>st_sessions = [createEmptySession (js ''s1'') (js ''t1'')],
      st_activeSessionId = Some (js ''s1''), st_window = None\<rparr>) = Some (js ''s9'') \<and>
   st_sessions (handleDeleteSession (js ''s9'') (js ''t9'') True (js ''s1'')
     \<lparr>st_sessions = [createEmptySession (js ''s1'') (js ''t1''),
                     createEmptySession (js ''s2'') (js ''t2''),
                     createEmptySession (js ''s3'') (js ''t3'')],
      st_activeSessionId = Some (js ''s1''), st_window = None\<rparr>) =
     [createEmptySession (js ''s2'') (js ''t2''), createEmptySession (js ''s3'') (js ''t3'')] \<and>
   st_activeSessionId (handleDeleteSession (js ''s9'') (js ''t9'') True (js ''s1'')
     \<lparr>st_sessions = [createEmptySession (js ''s1'') (js ''t1''),
                     createEmptySession (js ''s2'') (js ''t2''),
                     createEmptySession (js ''s3'') (js ''t3'')],
      st_activeSessionId = Some (js ''s1''), st_window = None\<rparr>) = Some (js ''s2'') \<and>
   st_activeSessionId (handleDeleteSession (js ''s9'') (js ''t9'') True (js ''s2'')
     \<lparr>st_sessions = [createEmptySession (js ''s1'') (js ''t1''),
                     createEmptySession (js ''s2'') (js ''t2''),
                     createEmptySession (js ''s3'') (js ''t3'')],
      st_activeSessionId = Some (js ''s1''), st_window = None\<rparr>) = Some (js ''s1'')"
  using
    handleDeleteSession_spec
      [of "js ''s1''"
          "\<lparr>st_sessions = [createEmptySession (js ''s1'') (js ''t1'')],
            st_activeSessionId = Some (js ''s1''), st_window = None\<rparr>"
          "js ''s9''" "js ''t9''" True "createEmptySession (js ''s1'') (js ''t1'')"]
    handleDeleteSession_spec
      [of "js ''s1''"
          "\<lparr>st_sessions = [createEmptySession (js ''s1'') (js ''t1''),
                           createEmptySession (js ''s2'') (js ''t2''),
                           createEmptySession (js ''s3'') (js ''t3'')],
            st_activeSessionId = Some (js ''s1''), st_window = None\<rparr>"
          "js ''s9''" "js ''t9''" True "createEmptySession (js ''s1'') (js ''t1'')"]
    handleDeleteSession_spec
      [of "js ''s2''"
          "\<lparr>st_sessions = [createEmptySession (js ''s1'') (js ''t1''),
                           createEmptySession (js ''s2'') (js ''t2''),
                           createEmptySession (js ''s3'') (js ''t3'')],
            st_activeSessionId = Some (js ''s1''), st_window = None\<rparr>"
          "js ''s9''" "js ''t9''" True "createEmptySession (js ''s1'') (js ''t1'')"]
  by (simp add: createEmptySession_def js_eq_iff)


section \<open>Appending a message\<close>

lemma updateSessionMessages_nth:
  "i < length prev \<Longrightarrow>
   updateSessionMessages timestamp sessionId updater prev ! i =
     (if s_id (prev ! i) \<noteq> sessionId then prev ! i
      else (prev ! i)\<lparr>s_messages := updater (s_messages (prev ! i)),
                       s_title := deriveTitle (updater (s_messages (prev ! i))),
                       s_updatedAt := timestamp\<rparr>)"
  by (simp add: updateSessionMessages_def Let_def)

text \<open>
  C8. With an id that no session has, \<open>updateSessionMessages\<close> returns the collection it was
  given. In general it returns a collection of the same length in which every session with
  another id is as it was, and every session with the id has the message appended to its
  messages, the title derived from the new messages, and the new time as \<open>updatedAt\<close>. The
  function is total: there is no input on which it throws.
\<close>

theorem updateSessionMessages_append:
  "((\<forall>session\<in>set prev. s_id session \<noteq> sessionId) \<longrightarrow>
      updateSessionMessages timestamp sessionId (appendMessage message) prev = prev) \<and>
   length (updateSessionMessages timestamp sessionId (appendMessage message) prev) = length prev \<and>
   (\<forall>i<length prev.
      (s_id (prev ! i) \<noteq> sessionId \<longrightarrow>
         updateSessionMessages timestamp sessionId (appendMessage message) prev ! i = prev ! i) \<and>
      (s_id (prev ! i) = sessionId \<longrightarrow>
         updateSessionMessages timestamp sessionId (appendMessage message) prev ! i =
           (prev ! i)\<lparr>s_messages := s_messages (prev ! i) @ [message],
                      s_title := deriveTitle (s_messages (prev ! i) @ [message]),
                      s_updatedAt := timestamp\<rparr>))"
proof (intro conjI impI allI)
  assume "\<forall>session\<in>set prev. s_id session \<noteq> sessionId"
  then show "updateSessionMessages timestamp sessionId (appendMessage message) prev = prev"
    by (simp add: updateSessionMessages_def map_idI)
next
  show "length (updateSessionMessages timestamp sessionId (appendMessage message) prev) = length prev"
    by (simp add: updateSessionMessages_def)
next
  fix i assume "i < length prev" "s_id (prev ! i) \<noteq> sessionId"
  then show "updateSessionMessages timestamp sessionId (appendMessage message) prev ! i = prev ! i"
    by (simp add: updateSessionMessages_nth)
next
  fix i assume "i < length prev" "s_id (prev ! i) = sessionId"
  then show "updateSessionMessages timestamp sessionId (appendMessage message) prev ! i =
           (prev ! i)\<lparr>s_messages := s_messages (prev ! i) @ [message],
                      s_title := deriveTitle (s_messages (prev ! i) @ [message]),
                      s_updatedAt := timestamp\<rparr>"
    by (simp add: updateSessionMessages_nth appendMessage_def)
qed

theorem updateSessionMessages_append_witness:
  "updateSessionMessages (js ''t5'') (js ''gone'')
     (appendMessage \<lparr>m_id = js ''m1'', m_role = User, m_content = js ''Hello'',
                     m_createdAt = js ''t5''\<rparr>)
     [createEmptySession (js ''s2'') (js ''t2''), createEmptySession (js ''s1'') (js ''t1'')] =
     [createEmptySession (js ''s2'') (js ''t2''), createEmptySession (js ''s1'') (js ''t1'')] \<and>
   updateSessionMessages (js ''t5'') (js ''s1'')
     (appendMessage \<lparr>m_id = js ''m1'', m_role = User, m_content = js ''Hello'',
                     m_createdAt = js ''t5''\<rparr>)
     [createEmptySession (js ''s2'') (js ''t2''), createEmptySession (js ''s1'') (js ''t1'')] ! 1 =
     \<lparr>s_id = js ''s1'', s_title = js ''Hello'',
      s_messages = [\<lparr>m_id = js ''m1'', m_role = User, m_content = js ''Hello'',
                     m_createdAt = js ''t5''\<rparr>],
      s_createdAt = js ''t1'', s_updatedAt = js ''t5''\<rparr>"
  using
    updateSessionMessages_append
      [of "[createEmptySession (js ''s2'') (js ''t2''), createEmptySession (js ''s1'') (js ''t1'')]"
          "js ''gone''" "js ''t5''"
          "\<lparr>m_id = js ''m1'', m_role = User, m_content = js ''Hello'', m_createdAt = js ''t5''\<rparr>"]
    updateSessionMessages_append
      [of "[createEmptySession (js ''s2'') (js ''t2''), createEmptySession (js ''s1'') (js ''t1'')]"
          "js ''s1''" "js ''t5''"
          "\<lparr>m_id = js ''m1'', m_role = User, m_content = js ''Hello'', m_createdAt = js ''t5''\<rparr>"]
  by (simp add: createEmptySession_def js_eq_iff deriveTitle_def titleOfContent_def trim_def
        isWhiteSpace_def js_def)


section \<open>Sanitizing\<close>

lemmas sanitize_defs =
  sanitizeSessions_def session_ok_def message_ok_def sanitizeSession_def sanitizeMessage_def
  deriveTitle_dyn_def truthy_prop_def or_else_def or_else_try_def js_or_def

lemma js_empty: "js [] = []"
  by (simp add: js_def)

lemma titleOfContent_blank: "titleOfContent [] = []" "titleOfContent (js ''   '') = []"
  by (simp_all add: titleOfContent_def trim_def js_def isWhiteSpace_def)

text \<open>
  A second pass. A message or a session that passed the filter passes it again after the
  map, and the map leaves its own results as they are, provided the title it produced is
  truthy: only then is the title not derived again.
\<close>

lemma or_else_again: "or_else (Some (or_else a b)) b = or_else a b"
  by (simp add: or_else_def split: option.splits)

lemma message_ok_object: "message_ok m \<Longrightarrow> \<exists>kvs. m = JObj kvs"
  by (cases m) (simp_all add: message_ok_def truthy_prop_def)

lemma session_ok_object: "session_ok s \<Longrightarrow> \<exists>kvs. s = JObj kvs"
  by (cases s) (simp_all add: session_ok_def truthy_prop_def)

lemma sanitizeMessage_ok: "message_ok m \<Longrightarrow> message_ok (sanitizeMessage now m)"
proof -
  assume ok: "message_ok m"
  then obtain kvs where m: "m = JObj kvs" using message_ok_object by blast
  show ?thesis
    using ok unfolding m
    by (simp add: message_ok_def sanitizeMessage_def update_conv' js_eq_iff)
qed

lemma sanitizeMessage_again:
  "sanitizeMessage now (sanitizeMessage now m) = sanitizeMessage now m"
  by (simp add: sanitizeMessage_def update_conv' or_else_again)

lemma sanitize_messages_again:
  "map (sanitizeMessage now)
     (filter message_ok (map (sanitizeMessage now) (filter message_ok ms))) =
   map (sanitizeMessage now) (filter message_ok ms)"
proof -
  have "filter message_ok (map (sanitizeMessage now) (filter message_ok ms)) =
      map (sanitizeMessage now) (filter message_ok ms)"
    by (rule filter_True) (auto simp: sanitizeMessage_ok)
  then show ?thesis
    by (simp add: sanitizeMessage_again)
qed

lemma updated_at_again:
  "or_else (js_or (Some (or_else (js_or u c) (JStr now))) (Some (or_else c (JStr now)))) (JStr now) =
   or_else (js_or u c) (JStr now)"
  by (cases u; cases c) (auto simp: or_else_def js_or_def truthy_prop_def)

lemma sanitizeSession_shape:
  assumes "sanitizeSession now (JObj kvs) = Inr s'"
  obtains ms T where
    "map_of kvs (js ''messages'') = Some (JArr ms)"
    "or_else_try (map_of kvs (js ''title'')) (map_sum id JStr (deriveTitle_dyn ms)) = Inr T"
    "s' = JObj
       (AList.update (js ''messages'')
          (JArr (map (sanitizeMessage now) (filter message_ok ms)))
       (AList.update (js ''updatedAt'')
          (or_else (js_or (map_of kvs (js ''updatedAt'')) (map_of kvs (js ''createdAt''))) (JStr now))
       (AList.update (js ''createdAt'')
          (or_else (map_of kvs (js ''createdAt'')) (JStr now))
       (AList.update (js ''title'') T kvs))))"
  using assms
  by (auto simp: sanitizeSession_def split: option.splits jsvalue.splits sum.splits)

lemma sanitizeSession_again:
  assumes s: "sanitizeSession now (JObj kvs) = Inr s'"
    and t: "truthy_prop (get_prop s' (js ''title''))"
  shows "sanitizeSession now s' = Inr s'"
proof -
  from s obtain ms T where
    m: "map_of kvs (js ''messages'') = Some (JArr ms)" and
    s': "s' = JObj
       (AList.update (js ''messages'')
          (JArr (map (sanitizeMessage now) (filter message_ok ms)))
       (AList.update (js ''updatedAt'')
          (or_else (js_or (map_of kvs (js ''updatedAt'')) (map_of kvs (js ''createdAt''))) (JStr now))
       (AList.update (js ''createdAt'')
          (or_else (map_of kvs (js ''createdAt'')) (JStr now))
       (AList.update (js ''title'') T kvs))))"
    by (rule sanitizeSession_shape)
  define kvs' where "kvs' =
       AList.update (js ''messages'')
          (JArr (map (sanitizeMessage now) (filter message_ok ms)))
       (AList.update (js ''updatedAt'')
          (or_else (js_or (map_of kvs (js ''updatedAt'')) (map_of kvs (js ''createdAt''))) (JStr now))
       (AList.update (js ''createdAt'')
          (or_else (map_of kvs (js ''createdAt'')) (JStr now))
       (AList.update (js ''title'') T kvs)))"
  have title: "map_of kvs' (js ''title'') = Some T"
    by (simp add: kvs'_def update_conv' js_eq_iff)
  have created: "map_of kvs' (js ''createdAt'') =
      Some (or_else (map_of kvs (js ''createdAt'')) (JStr now))"
    by (simp add: kvs'_def update_conv' js_eq_iff)
  have updated: "map_of kvs' (js ''updatedAt'') =
      Some (or_else (js_or (map_of kvs (js ''updatedAt'')) (map_of kvs (js ''createdAt''))) (JStr now))"
    by (simp add: kvs'_def update_conv' js_eq_iff)
  have messages: "map_of kvs' (js ''messages'') =
      Some (JArr (map (sanitizeMessage now) (filter message_ok ms)))"
    by (simp add: kvs'_def update_conv' js_eq_iff)
  have T: "truthy T"
    using t title by (simp add: s' kvs'_def [symmetric] truthy_prop_def)
  have u1: "AList.update (js ''title'') T kvs' = kvs'"
    by (rule update_triv) (rule title)
  have u2: "AList.update (js ''createdAt'')
      (or_else (map_of kvs' (js ''createdAt'')) (JStr now)) kvs' = kvs'"
    by (rule update_triv) (simp add: created or_else_again)
  have u3: "AList.update (js ''updatedAt'')
      (or_else (js_or (map_of kvs' (js ''updatedAt'')) (map_of kvs' (js ''createdAt''))) (JStr now))
      kvs' = kvs'"
    by (rule update_triv) (simp add: created updated updated_at_again)
  have u4: "AList.update (js ''messages'')
      (JArr (map (sanitizeMessage now)
         (filter message_ok (map (sanitizeMessage now) (filter message_ok ms))))) kvs' = kvs'"
    by (rule update_triv) (simp add: messages sanitize_messages_again)
  have "sanitizeSession now (JObj kvs') = Inr (JObj kvs')"
    by (simp add: sanitizeSession_def messages title T or_else_try_def u1 u2 u3 u4)
  then show ?thesis
    by (simp add: s' kvs'_def)
qed

lemma sanitizeSession_ok_again:
  assumes ok: "session_ok (JObj kvs)" and s: "sanitizeSession now (JObj kvs) = Inr s'"
  shows "session_ok s'"
proof -
  from s obtain ms T where
    s': "s' = JObj
       (AList.update (js ''messages'')
          (JArr (map (sanitizeMessage now) (filter message_ok ms)))
       (AList.update (js ''updatedAt'')
          (or_else (js_or (map_of kvs (js ''updatedAt'')) (map_of kvs (js ''createdAt''))) (JStr now))
       (AList.update (js ''createdAt'')
          (or_else (map_of kvs (js ''createdAt'')) (JStr now))
       (AList.update (js ''title'') T kvs))))"
    by (rule sanitizeSession_shape)
  show ?thesis
    using ok by (simp add: s' session_ok_def update_conv' js_eq_iff)
qed

lemma map_throwing_fixed:
  "(\<forall>x\<in>set xs. f x = Inr x) \<Longrightarrow> map_throwing f xs = Inr xs"
  by (induction xs) simp_all

lemma map_throwing_results:
  "map_throwing f xs = Inr ys \<Longrightarrow> \<forall>y\<in>set ys. \<exists>x\<in>set xs. f x = Inr y"
proof (induction xs arbitrary: ys)
  case Nil
  then show ?case by simp
next
  case (Cons x xs)
  from Cons.prems obtain y ys' where
    y: "f x = Inr y" and ys': "map_throwing f xs = Inr ys'" and ys: "ys = y # ys'"
    by (auto split: sum.splits)
  from Cons.IH [OF ys'] y show ?case
    unfolding ys by auto
qed

lemma sanitizeSessions_again:
  assumes r: "sanitizeSessions now sessions = Inr r"
    and t: "\<forall>s'\<in>set r. truthy_prop (get_prop s' (js ''title''))"
  shows "sanitizeSessions now (JArr r) = Inr r"
proof -
  from r obtain entries where
    e: "map_throwing (sanitizeSession now) (filter session_ok entries) = Inr r"
    by (cases sessions) (simp_all add: sanitizeSessions_def)
  have each: "session_ok s' \<and> sanitizeSession now s' = Inr s'" if "s' \<in> set r" for s'
  proof -
    from map_throwing_results [OF e] that obtain s where
      s: "s \<in> set (filter session_ok entries)" "sanitizeSession now s = Inr s'"
      by blast
    then have ok: "session_ok s" by simp
    then obtain kvs where kvs: "s = JObj kvs" using session_ok_object by blast
    from t that have "truthy_prop (get_prop s' (js ''title''))" by blast
    with s(2) ok show ?thesis
      unfolding kvs by (simp add: sanitizeSession_again sanitizeSession_ok_again)
  qed
  then have "filter session_ok r = r"
    by (simp add: filter_True)
  moreover have "map_throwing (sanitizeSession now) r = Inr r"
    using each by (simp add: map_throwing_fixed)
  ultimately show ?thesis
    by (simp add: sanitizeSessions_def)
qed

text \<open>On messages of the declared type the two models of \<open>deriveTitle\<close> agree.\<close>

lemma find_user_typed:
  "find_user (map message_json ms) =
   Inr (map_option message_json (find (\<lambda>message. m_role message = User) ms))"
proof (induction ms)
  case Nil
  then show ?case by simp
next
  case (Cons m ms)
  show ?case
  proof (cases "m_role m")
    case User
    then show ?thesis by (simp add: message_json_def role_json_def js_eq_iff)
  next
    case Assistant
    with Cons show ?thesis by (simp add: message_json_def role_json_def js_eq_iff)
  qed
qed

lemma deriveTitle_dyn_typed: "deriveTitle_dyn (map message_json ms) = Inr (deriveTitle ms)"
proof (cases "find (\<lambda>message. m_role message = User) ms")
  case None
  then show ?thesis by (simp add: deriveTitle_dyn_def deriveTitle_def find_user_typed)
next
  case (Some u)
  then show ?thesis
    by (simp add: deriveTitle_dyn_def deriveTitle_def find_user_typed message_json_def js_eq_iff)
qed

text \<open>
  A falsy title leaves \<open>sanitizeSession\<close> in one way only: the title of the input is falsy
  and the content of the first user message is white space, or empty.
\<close>

lemma deriveTitle_dyn_empty:
  assumes "deriveTitle_dyn ms = Inr []"
  shows "\<exists>u c. find_user ms = Inr (Some u) \<and> get_prop u (js ''content'') = Some (JStr c) \<and>
           (\<forall>ch\<in>set c. isWhiteSpace ch)"
  using assms
  by (auto simp: deriveTitle_dyn_def js_Nil_iff titleOfContent_empty_iff
           split: sum.splits option.splits jsvalue.splits)

lemma sanitizeSession_title_falsy:
  assumes s: "sanitizeSession now (JObj kvs) = Inr s'"
    and t: "\<not> truthy_prop (get_prop s' (js ''title''))"
  shows "\<not> truthy_prop (map_of kvs (js ''title'')) \<and>
         (\<exists>ms u c. map_of kvs (js ''messages'') = Some (JArr ms) \<and>
            find_user ms = Inr (Some u) \<and> get_prop u (js ''content'') = Some (JStr c) \<and>
            (\<forall>ch\<in>set c. isWhiteSpace ch))"
proof -
  from s obtain ms T where
    m: "map_of kvs (js ''messages'') = Some (JArr ms)" and
    T: "or_else_try (map_of kvs (js ''title'')) (map_sum id JStr (deriveTitle_dyn ms)) = Inr T" and
    s': "s' = JObj
       (AList.update (js ''messages'')
          (JArr (map (sanitizeMessage now) (filter message_ok ms)))
       (AList.update (js ''updatedAt'')
          (or_else (js_or (map_of kvs (js ''updatedAt'')) (map_of kvs (js ''createdAt''))) (JStr now))
       (AList.update (js ''createdAt'')
          (or_else (map_of kvs (js ''createdAt'')) (JStr now))
       (AList.update (js ''title'') T kvs))))"
    by (rule sanitizeSession_shape)
  have "get_prop s' (js ''title'') = Some T"
    by (simp add: s' update_conv' js_eq_iff)
  with t have nT: "\<not> truthy T" by (simp add: truthy_prop_def)
  have falsy: "\<not> truthy_prop (map_of kvs (js ''title''))"
    using T nT by (auto simp: or_else_try_def truthy_prop_def split: option.splits if_splits)
  then have "map_sum id JStr (deriveTitle_dyn ms) = Inr T"
    using T by (auto simp: or_else_try_def truthy_prop_def split: option.splits if_splits)
  then obtain title where "deriveTitle_dyn ms = Inr title" "T = JStr title"
    by (cases "deriveTitle_dyn ms") auto
  with nT have "deriveTitle_dyn ms = Inr []" by simp
  from deriveTitle_dyn_empty [OF this] m falsy show ?thesis by blast
qed

text \<open>
  Sessions of the declared type with non-empty ids, titles and timestamps are returned as
  they are.
\<close>

lemma message_json_ok: "m_id m \<noteq> [] \<Longrightarrow> message_ok (message_json m)"
  by (cases "m_role m") (simp_all add: message_ok_def message_json_def role_json_def truthy_prop_def js_simps)

lemma sanitizeMessage_typed:
  "m_createdAt m \<noteq> [] \<Longrightarrow> sanitizeMessage now (message_json m) = message_json m"
  by (simp add: sanitizeMessage_def message_json_def or_else_def js_simps)

lemma sanitizeSession_typed:
  assumes "s_title s \<noteq> []" "s_createdAt s \<noteq> []" "s_updatedAt s \<noteq> []"
    and "\<forall>m\<in>set (s_messages s). m_id m \<noteq> [] \<and> m_createdAt m \<noteq> []"
  shows "sanitizeSession now (session_json s) = Inr (session_json s)"
proof -
  have f: "filter message_ok (map message_json (s_messages s)) = map message_json (s_messages s)"
    using assms(4) by (simp add: filter_True message_json_ok)
  have m: "map (sanitizeMessage now) (map message_json (s_messages s)) = map message_json (s_messages s)"
    using assms(4) by (simp add: sanitizeMessage_typed)
  show ?thesis
    using assms(1-3)
    by (simp add: sanitizeSession_def session_json_def or_else_try_def or_else_def js_or_def
          truthy_prop_def js_simps f m del: map_map)
qed

lemma sanitizeSessions_typed:
  assumes "\<forall>s\<in>set S. s_id s \<noteq> [] \<and> s_title s \<noteq> [] \<and> s_createdAt s \<noteq> [] \<and> s_updatedAt s \<noteq> [] \<and>
             (\<forall>m\<in>set (s_messages s). m_id m \<noteq> [] \<and> m_createdAt m \<noteq> [])"
  shows "sanitizeSessions now (JArr (map session_json S)) = Inr (map session_json S)"
proof -
  have ok: "\<forall>s\<in>set S. session_ok (session_json s)"
    using assms by (simp add: session_ok_def session_json_def truthy_prop_def js_simps)
  then have "filter session_ok (map session_json S) = map session_json S"
    by (simp add: filter_True)
  moreover have "map_throwing (sanitizeSession now) (map session_json S) = Inr (map session_json S)"
    using assms by (intro map_throwing_fixed) (auto simp: sanitizeSession_typed)
  ultimately show ?thesis
    by (simp add: sanitizeSessions_def)
qed

text \<open>
  C4. The claim: every session that \<open>sanitizeSessions\<close> returns has a non-empty title, also
  when the first user message is blank. \<open>session.title || deriveTitle(session.messages)\<close>
  replaces an empty title by the derived one, and the title derived from a content of three
  spaces is the empty string: the session below leaves \<open>sanitizeSessions\<close> with the title
  \<open>""\<close>.
\<close>

theorem sanitizeSessions_blank_title:
  "sanitizeSessions now
     (JArr [JObj [(js ''id'', JStr (js ''a'')),
                  (js ''title'', JStr (js '''')),
                  (js ''messages'',
                     JArr [JObj [(js ''id'', JStr (js ''m'')),
                                 (js ''role'', JStr (js ''user'')),
                                 (js ''content'', JStr (js ''   '')),
                                 (js ''createdAt'', JStr (js ''2024-01-01T00:00:00.000Z''))]]),
                  (js ''createdAt'', JStr (js ''2024-01-01T00:00:00.000Z'')),
                  (js ''updatedAt'', JStr (js ''2024-01-01T00:00:00.000Z''))]]) =
   Inr [JObj [(js ''id'', JStr (js ''a'')),
              (js ''title'', JStr []),
              (js ''messages'',
                 JArr [JObj [(js ''id'', JStr (js ''m'')),
                             (js ''role'', JStr (js ''user'')),
                             (js ''content'', JStr (js ''   '')),
                             (js ''createdAt'', JStr (js ''2024-01-01T00:00:00.000Z''))]]),
              (js ''createdAt'', JStr (js ''2024-01-01T00:00:00.000Z'')),
              (js ''updatedAt'', JStr (js ''2024-01-01T00:00:00.000Z''))]]"
  by (simp add: sanitize_defs js_simps js_empty titleOfContent_blank)

text \<open>
  C5. The claim: \<open>sanitizeSessions\<close> applied twice gives what it gives applied once. The
  session below has an empty title and one user message with an empty id and an empty
  content. The first pass derives the title \<open>""\<close> from that message and then drops the
  message for its empty id; the second pass finds the title empty again, derives it from
  the messages that are left, and returns \<open>"New chat"\<close>.
\<close>

theorem sanitizeSessions_twice_differs:
  "sanitizeSessions now
     (JArr [JObj [(js ''id'', JStr (js ''a'')),
                  (js ''title'', JStr (js '''')),
                  (js ''messages'',
                     JArr [JObj [(js ''id'', JStr (js '''')),
                                 (js ''role'', JStr (js ''user'')),
                                 (js ''content'', JStr (js '''')),
                                 (js ''createdAt'', JStr (js ''2024-01-01T00:00:00.000Z''))]]),
                  (js ''createdAt'', JStr (js ''2024-01-01T00:00:00.000Z'')),
                  (js ''updatedAt'', JStr (js ''2024-01-01T00:00:00.000Z''))]]) =
   Inr [JObj [(js ''id'', JStr (js ''a'')),
              (js ''title'', JStr (js '''')),
              (js ''messages'', JArr []),
              (js ''createdAt'', JStr (js ''2024-01-01T00:00:00.000Z'')),
              (js ''updatedAt'', JStr (js ''2024-01-01T00:00:00.000Z''))]] \<and>
   sanitizeSessions now
     (JArr [JObj [(js ''id'', JStr (js ''a'')),
                  (js ''title'', JStr (js '''')),
                  (js ''messages'', JArr []),
                  (js ''createdAt'', JStr (js ''2024-01-01T00:00:00.000Z'')),
                  (js ''updatedAt'', JStr (js ''2024-01-01T00:00:00.000Z''))]]) =
   Inr [JObj [(js ''id'', JStr (js ''a'')),
              (js ''title'', JStr (js ''New chat'')),
              (js ''messages'', JArr []),
              (js ''createdAt'', JStr (js ''2024-01-01T00:00:00.000Z'')),
              (js ''updatedAt'', JStr (js ''2024-01-01T00:00:00.000Z''))]]"
  by (simp add: sanitize_defs js_simps js_empty titleOfContent_blank)


section \<open>Loading\<close>

text \<open>
  \<open>readFromStorage\<close> always returns a sequence: whatever is thrown inside its \<open>try\<close> is
  caught. The sequence is empty when there is no window, when the slot is absent or holds
  the empty string, and when \<open>JSON.parse\<close> or \<open>sanitizeSessions\<close> throws; otherwise it is
  what \<open>sanitizeSessions\<close> returned.
\<close>

lemma readFromStorage_fails_soft:
  "readFromStorage JSON_parse now None = [] \<and>
   (localStorage STORAGE_KEY = None \<or> localStorage STORAGE_KEY = Some [] \<longrightarrow>
      readFromStorage JSON_parse now (Some localStorage) = []) \<and>
   (localStorage STORAGE_KEY = Some raw \<and> JSON_parse raw = None \<longrightarrow>
      readFromStorage JSON_parse now (Some localStorage) = []) \<and>
   (localStorage STORAGE_KEY = Some raw \<and> JSON_parse raw = Some parsed \<and>
    sanitizeSessions now parsed = Inl error \<longrightarrow>
      readFromStorage JSON_parse now (Some localStorage) = []) \<and>
   (localStorage STORAGE_KEY = Some raw \<and> raw \<noteq> [] \<and> JSON_parse raw = Some parsed \<and>
    sanitizeSessions now parsed = Inr sanitized \<longrightarrow>
      readFromStorage JSON_parse now (Some localStorage) = sanitized)"
  by (auto simp: readFromStorage_def readFromStorage_try_def)

text \<open>
  C9. The claim: when the stored text parses, \<open>readFromStorage\<close> returns the sanitized
  sessions. The first stored text below parses; its one session has no title and a \<open>null\<close>
  among its messages. \<open>sanitizeSessions\<close> derives the missing title from
  \<open>session.messages\<close> as they are, before the filter that drops a \<open>null\<close> message;
  \<open>deriveTitle\<close> reads \<open>role\<close> of \<open>null\<close>, and \<open>readFromStorage\<close> catches the
  \<open>TypeError\<close> and returns the empty sequence. With a title, the same \<open>null\<close> is dropped
  and the session is returned. In the second stored text a well-formed session stands
  beside the first one, and is lost with it.
\<close>

theorem readFromStorage_null_message:
  \<open>map_of [(js ''[{"id":"a","messages":[null]}]'',
            JArr [JObj [(js ''id'', JStr (js ''a'')), (js ''messages'', JArr [JNull])]])]
     (js ''[{"id":"a","messages":[null]}]'') =
     Some (JArr [JObj [(js ''id'', JStr (js ''a'')), (js ''messages'', JArr [JNull])]]) \<and>
   sanitizeSessions (js ''2024-01-01T00:00:00.000Z'')
     (JArr [JObj [(js ''id'', JStr (js ''a'')), (js ''messages'', JArr [JNull])]]) =
     Inl TypeError \<and>
   readFromStorage
     (map_of [(js ''[{"id":"a","messages":[null]}]'',
               JArr [JObj [(js ''id'', JStr (js ''a'')), (js ''messages'', JArr [JNull])]])])
     (js ''2024-01-01T00:00:00.000Z'')
     (Some (map_of [(STORAGE_KEY, js ''[{"id":"a","messages":[null]}]'')])) = [] \<and>
   sanitizeSessions (js ''2024-01-01T00:00:00.000Z'')
     (JArr [JObj [(js ''id'', JStr (js ''a'')), (js ''title'', JStr (js ''Trip'')),
                  (js ''messages'', JArr [JNull])]]) =
     Inr [JObj [(js ''id'', JStr (js ''a'')), (js ''title'', JStr (js ''Trip'')),
                (js ''messages'', JArr []),
                (js ''createdAt'', JStr (js ''2024-01-01T00:00:00.000Z'')),
                (js ''updatedAt'', JStr (js ''2024-01-01T00:00:00.000Z''))]] \<and>
   readFromStorage
     (map_of [(js ''[{"id":"b","title":"Trip","messages":[]},{"id":"a","messages":[null]}]'',
               JArr [JObj [(js ''id'', JStr (js ''b'')), (js ''title'', JStr (js ''Trip'')),
                           (js ''messages'', JArr [])],
                     JObj [(js ''id'', JStr (js ''a'')), (js ''messages'', JArr [JNull])]])])
     (js ''2024-01-01T00:00:00.000Z'')
     (Some (map_of [(STORAGE_KEY,
        js ''[{"id":"b","title":"Trip","messages":[]},{"id":"a","messages":[null]}]'')])) = []\<close>
  by (simp add: readFromStorage_def readFromStorage_try_def sanitize_defs js_simps)

end
